theory Spec2Isabelle
  imports Main "HOL-Library.Multiset" "HOL-Library.Sublist"
begin

section \<open>Data model (types.ts)\<close>

text \<open>
  \<^verbatim>\<open>export type ViewMode = 'generate' | 'gallery' | 'editor';\<close>
\<close>

datatype ViewMode = Generate | Gallery | EditorView

text \<open>
  \<^verbatim>\<open>export type AspectRatio = "1:1" | "3:4" | "4:3" | "9:16" | "16:9";\<close>
  A value of the literal union type, with the string it denotes.
\<close>

datatype AspectRatio = R_1_1 | R_3_4 | R_4_3 | R_9_16 | R_16_9

fun ratio_string :: "AspectRatio \<Rightarrow> string" where
  "ratio_string R_1_1 = ''1:1''"
| "ratio_string R_3_4 = ''3:4''"
| "ratio_string R_4_3 = ''4:3''"
| "ratio_string R_9_16 = ''9:16''"
| "ratio_string R_16_9 = ''16:9''"

definition ASPECT_RATIOS :: "AspectRatio list" where
  "ASPECT_RATIOS = [R_1_1, R_3_4, R_4_3, R_9_16, R_16_9]"

text \<open>
  The interface \<open>GeneratedImage\<close>. The field \<open>id\<close> is written \<open>id'\<close> (HOL has a
  constant \<open>id\<close>). \<open>aspectRatio\<close> is typed \<open>string\<close> in types.ts, not \<open>AspectRatio\<close>.
  \<open>parentId\<close> is not declared in types.ts; components/Editor.tsx writes and reads it,
  so a record carries it as an optional field (\<open>None\<close> is JavaScript's \<open>undefined\<close>).
  \<open>timestamp\<close> holds \<open>Date.now()\<close>, an integer number of milliseconds.
\<close>

record GeneratedImage =
  id' :: string
  url :: string
  prompt :: string
  aspectRatio :: string
  timestamp :: int
  model :: string
  parentId :: "string option"

section \<open>The image store (App.tsx)\<close>

record app_state =
  currentView :: ViewMode
  images :: "GeneratedImage list"
  selectedImage :: "GeneratedImage option"

text \<open>The three \<open>useState\<close> initial values of \<open>App\<close>.\<close>

definition initial_state :: app_state where
  "initial_state = \<lparr>currentView = Generate, images = [], selectedImage = None\<rparr>"

text \<open>
  \<^verbatim>\<open>setImages(prev => [newImage, ...prev]); setCurrentView('editor'); setSelectedImage(newImage);\<close>
\<close>

definition handleImageGenerated :: "GeneratedImage \<Rightarrow> app_state \<Rightarrow> app_state" where
  "handleImageGenerated newImage st =
     st\<lparr>images := newImage # images st,
        currentView := EditorView,
        selectedImage := Some newImage\<rparr>"

definition handleSelectImage :: "GeneratedImage \<Rightarrow> app_state \<Rightarrow> app_state" where
  "handleSelectImage img st = st\<lparr>selectedImage := Some img, currentView := EditorView\<rparr>"

text \<open>
  \<^verbatim>\<open>setImages(prev => prev.filter(img => img.id !== id));
  if (selectedImage?.id === id) { setSelectedImage(null); setCurrentView('gallery'); }\<close>
\<close>

definition handleDeleteImage :: "string \<Rightarrow> app_state \<Rightarrow> app_state" where
  "handleDeleteImage i st =
     (let st1 = st\<lparr>images := filter (\<lambda>img. id' img \<noteq> i) (images st)\<rparr>
      in if (case selectedImage st of None \<Rightarrow> False | Some s \<Rightarrow> id' s = i)
         then st1\<lparr>selectedImage := None, currentView := Gallery\<rparr>
         else st1)"

text \<open>
  The mount effect of \<open>App\<close>:
  \<^verbatim>\<open>const saved = localStorage.getItem('bananagen_db');
  if (saved) { try { setImages(JSON.parse(saved)); }
               catch (e) { console.error("Failed to parse database", e); } }\<close>
  \<open>saved\<close> is the stored string (\<open>None\<close> for \<open>null\<close>); \<open>JSON.parse\<close> is the
  parameter \<open>parse\<close>, which returns the parsed value or the error it throws (a stored
  text that parses to something other than an array of records is outside its type). The result
  is the error that leaves the effect uncaught, or the new state with the lines written
  by \<open>console.error\<close>.
\<close>

datatype js_error = Error (message: "string option")

definition load_effect ::
  "(string \<Rightarrow> js_error + GeneratedImage list) \<Rightarrow> string option \<Rightarrow> app_state
     \<Rightarrow> js_error + (app_state \<times> string list)" where
  "load_effect parse saved st =
     (case saved of
        None \<Rightarrow> Inr (st, [])
      | Some s \<Rightarrow>
          if s = [] then Inr (st, [])
          else (case parse s of
                  Inr v \<Rightarrow> Inr (st\<lparr>images := v\<rparr>, [])
                | Inl e \<Rightarrow> Inr (st, [''Failed to parse database''])))"

section \<open>JavaScript strings\<close>

text \<open>
  A string is a list of 8-bit characters here, so the model covers the code units
  0 to 255. Truthiness of an optional string: \<open>undefined\<close> and \<open>""\<close> are falsy.
\<close>

definition truthy :: "string option \<Rightarrow> bool" where
  "truthy v = (case v of None \<Rightarrow> False | Some s \<Rightarrow> s \<noteq> [])"

text \<open>\<^verbatim>\<open>a || b\<close> on an optional string \<open>a\<close>.\<close>

definition or_else :: "string option \<Rightarrow> string \<Rightarrow> string" where
  "or_else a b = (case a of None \<Rightarrow> b | Some s \<Rightarrow> if s = [] then b else s)"

text \<open>
  \<open>String.prototype.trim\<close> strips white space and line terminators from both ends:
  TAB, LF, VT, FF, CR, SPACE and NBSP among the code units below 256.
\<close>

definition isWhiteSpace :: "char \<Rightarrow> bool" where
  "isWhiteSpace c = ((of_char c :: nat) \<in> {9, 10, 11, 12, 13, 32, 160})"

definition trim :: "string \<Rightarrow> string" where
  "trim s = rev (dropWhile isWhiteSpace (rev (dropWhile isWhiteSpace s)))"

text \<open>The dot of a regular expression (no \<open>s\<close> flag) matches all but line terminators.\<close>

definition isLineTerminator :: "char \<Rightarrow> bool" where
  "isLineTerminator c = ((of_char c :: nat) \<in> {10, 13})"

section \<open>The generation gateway (services/geminiService.ts)\<close>

record InlineData =
  inl_data :: "string option"
  inl_mimeType :: "string option"

record Part =
  inlineData :: "InlineData option"
  part_text :: "string option"

text \<open>\<open>parts\<close> is \<open>candidate.content?.parts\<close>: \<open>None\<close> when either is missing.\<close>

record Candidate =
  parts :: "Part list option"

record Response =
  candidates :: "Candidate list option"

text \<open>The argument of \<open>ai.models.generateContent\<close>.\<close>

record Request =
  req_model :: string
  req_inlineData :: "(string \<times> string) option"
  req_text :: string
  req_aspectRatio :: "AspectRatio option"

text \<open>
  The environment of a call: \<open>process.env.API_KEY\<close> and the remote model, which returns
  a response or throws.
\<close>

record Env =
  API_KEY :: "string option"
  generateContent :: "Request \<Rightarrow> js_error + Response"

text \<open>The \<open>for\<close> loop of \<open>extractImageFromResponse\<close> over \<open>parts\<close>.\<close>

fun first_image :: "Part list \<Rightarrow> string option" where
  "first_image [] = None"
| "first_image (part # rest) =
     (case inlineData part of
        None \<Rightarrow> first_image rest
      | Some d \<Rightarrow>
          (case inl_data d of
             None \<Rightarrow> first_image rest
           | Some base64Data \<Rightarrow>
               if base64Data = [] then first_image rest
               else Some (''data:'' @ or_else (inl_mimeType d) ''image/png''
                            @ '';base64,'' @ base64Data)))"

definition extractImageFromResponse :: "Response \<Rightarrow> js_error + string" where
  "extractImageFromResponse response =
     (case candidates response of
        Some (c # cs) \<Rightarrow>
          (case parts c of
             Some ps \<Rightarrow>
               (case first_image ps of
                  Some u \<Rightarrow> Inr u
                | None \<Rightarrow> Inl (Error (Some ''No image data found in the response.'')))
           | None \<Rightarrow> Inl (Error (Some ''No image data found in the response.'')))
      | _ \<Rightarrow> Inl (Error (Some ''No image data found in the response.'')))"

text \<open>
  A service function returns what it returns or throws, and the list of requests it sent
  to the remote model.
\<close>

definition generateImageWithGemini ::
  "Env \<Rightarrow> string \<Rightarrow> AspectRatio \<Rightarrow> (js_error + string) \<times> Request list" where
  "generateImageWithGemini env p ar =
     (if \<not> truthy (API_KEY env)
      then (Inl (Error (Some ''API Key is missing. Please configure your environment.'')), [])
      else
        let req = \<lparr>req_model = ''gemini-2.5-flash-image'', req_inlineData = None,
                   req_text = p, req_aspectRatio = Some ar\<rparr>
        in (case generateContent env req of
              Inl error \<Rightarrow>
                Inl (Error (Some (or_else (message error) ''Failed to generate image.'')))
            | Inr response \<Rightarrow>
                (case extractImageFromResponse response of
                   Inl error \<Rightarrow>
                     Inl (Error (Some (or_else (message error) ''Failed to generate image.'')))
                 | Inr u \<Rightarrow> Inr u),
            [req]))"

text \<open>
  \<^verbatim>\<open>base64Image.match(/^data:(.+);base64,(.+)$/)\<close>. After the prefix \<open>data:\<close> the rest
  must hold no line terminator and split as \<open>g1 ;base64, g2\<close> with both groups non-empty.
  The first group is greedy: \<open>greedy_split\<close> prefers the longer first group, so it tries
  the tail before it tries to split right after the first character.
\<close>

fun greedy_split :: "string \<Rightarrow> (string \<times> string) option" where
  "greedy_split [] = None"
| "greedy_split (c # cs) =
     (case greedy_split cs of
        Some (g1, g2) \<Rightarrow> Some (c # g1, g2)
      | None \<Rightarrow>
          if take 8 cs = '';base64,'' \<and> drop 8 cs \<noteq> []
          then Some ([c], drop 8 cs) else None)"

definition match_data_url :: "string \<Rightarrow> string list option" where
  "match_data_url s =
     (if take 5 s = ''data:'' \<and> list_all (\<lambda>c. \<not> isLineTerminator c) (drop 5 s)
      then (case greedy_split (drop 5 s) of
              Some (g1, g2) \<Rightarrow> Some [s, g1, g2]
            | None \<Rightarrow> None)
      else None)"

definition editImageWithGemini ::
  "Env \<Rightarrow> string \<Rightarrow> string \<Rightarrow> (js_error + string) \<times> Request list" where
  "editImageWithGemini env base64Image p =
     (if \<not> truthy (API_KEY env) then (Inl (Error (Some ''API Key is missing.'')), [])
      else
        (case match_data_url base64Image of
           None \<Rightarrow> (Inl (Error (Some ''Invalid image format. Expected data URL.'')), [])
         | Some matches \<Rightarrow>
             if length matches \<noteq> 3
             then (Inl (Error (Some ''Invalid image format. Expected data URL.'')), [])
             else
               let req = \<lparr>req_model = ''gemini-2.5-flash-image'',
                          req_inlineData = Some (matches ! 1, matches ! 2),
                          req_text = p, req_aspectRatio = None\<rparr>
               in (case generateContent env req of
                     Inl error \<Rightarrow>
                       Inl (Error (Some (or_else (message error) ''Failed to edit image.'')))
                   | Inr response \<Rightarrow>
                       (case extractImageFromResponse response of
                          Inl error \<Rightarrow>
                            Inl (Error (Some (or_else (message error) ''Failed to edit image.'')))
                        | Inr u \<Rightarrow> Inr u),
                   [req])))"

text \<open>
  The shape \<open>data:<mime>;base64,<data>\<close> in words: the prefix, a non-empty media type,
  the separator, a non-empty payload.
\<close>

definition data_url_shape :: "string \<Rightarrow> bool" where
  "data_url_shape s =
     (\<exists>mime dat. mime \<noteq> [] \<and> dat \<noteq> [] \<and> s = ''data:'' @ mime @ '';base64,'' @ dat)"

section \<open>The prompt form (components/Generator.tsx)\<close>

record GeneratorState =
  gen_prompt :: string
  gen_aspectRatio :: AspectRatio
  gen_loading :: bool
  gen_error :: "string option"

text \<open>
  \<open>handleGenerate\<close>, run to completion. \<open>uuid\<close> is what \<open>uuidv4()\<close> returns and \<open>now\<close>
  what \<open>Date.now()\<close> returns, both read on the success path only. The result is the
  component state, the state of \<open>App\<close> (through \<open>onImageGenerated\<close>) and the requests
  sent to the remote model.
\<close>

definition handleGenerate ::
  "Env \<Rightarrow> string \<Rightarrow> int \<Rightarrow> GeneratorState \<times> app_state
     \<Rightarrow> (GeneratorState \<times> app_state) \<times> Request list" where
  "handleGenerate env uuid now s =
     (case s of (gs, st) \<Rightarrow>
        if trim (gen_prompt gs) = [] then ((gs, st), [])
        else
          (case generateImageWithGemini env (gen_prompt gs) (gen_aspectRatio gs) of
             (Inr imageUrl, calls) \<Rightarrow>
               let newImage = \<lparr>id' = uuid, url = imageUrl, prompt = gen_prompt gs,
                               aspectRatio = ratio_string (gen_aspectRatio gs),
                               timestamp = now, model = ''gemini-2.5-flash-image'',
                               parentId = None\<rparr>
               in ((gs\<lparr>gen_loading := False, gen_error := None, gen_prompt := []\<rparr>,
                    handleImageGenerated newImage st), calls)
           | (Inl err, calls) \<Rightarrow>
               ((gs\<lparr>gen_loading := False,
                     gen_error := Some (or_else (message err)
                        ''Something went wrong while generating the image.'')\<rparr>,
                 st), calls)))"

section \<open>The editor (components/Editor.tsx)\<close>

record EditorState =
  ed_editPrompt :: string
  ed_isProcessing :: bool
  ed_error :: "string option"

text \<open>
  \<open>handleAiEdit\<close> of components/Editor.tsx, run to completion. \<open>img\<close> is the \<open>image\<close>
  prop; \<open>canvas\<close> is \<open>None\<close> when \<open>canvasRef.current\<close> is null and otherwise holds what
  \<open>toDataURL('image/png')\<close> returns.
\<close>

definition handleAiEdit ::
  "Env \<Rightarrow> string \<Rightarrow> int \<Rightarrow> string option \<Rightarrow> GeneratedImage \<Rightarrow> EditorState \<times> app_state
     \<Rightarrow> (EditorState \<times> app_state) \<times> Request list" where
  "handleAiEdit env uuid now canvas img s =
     (case s of (es, st) \<Rightarrow>
        if trim (ed_editPrompt es) = [] then ((es, st), [])
        else
          let sourceImage = (case canvas of Some c \<Rightarrow> c | None \<Rightarrow> url img)
          in (case editImageWithGemini env sourceImage (ed_editPrompt es) of
                (Inr newImageUrl, calls) \<Rightarrow>
                  let newImage = \<lparr>id' = uuid, url = newImageUrl,
                                  prompt = ''Edit: '' @ ed_editPrompt es,
                                  aspectRatio = aspectRatio img,
                                  timestamp = now, model = ''gemini-2.5-flash-image'',
                                  parentId = Some (id' img)\<rparr>
                  in ((es\<lparr>ed_isProcessing := False, ed_error := None, ed_editPrompt := []\<rparr>,
                       handleImageGenerated newImage st), calls)
              | (Inl err, calls) \<Rightarrow>
                  ((es\<lparr>ed_isProcessing := False,
                        ed_error := Some (or_else (message err) ''Failed to edit image'')\<rparr>,
                    st), calls)))"

text \<open>
  \<open>handleAiEdit\<close> of the second editor component (src/unnamed/part_000). It sends
  \<open>image.url\<close>, takes its id from \<open>generateId()\<close> (two base-36 renderings of
  \<open>Math.random()\<close>, passed here as \<open>generatedId\<close>) and writes no \<open>parentId\<close>.
\<close>

definition handleAiEdit_part_000 ::
  "Env \<Rightarrow> string \<Rightarrow> int \<Rightarrow> GeneratedImage \<Rightarrow> EditorState \<times> app_state
     \<Rightarrow> (EditorState \<times> app_state) \<times> Request list" where
  "handleAiEdit_part_000 env generatedId now img s =
     (case s of (es, st) \<Rightarrow>
        if trim (ed_editPrompt es) = [] then ((es, st), [])
        else
          (case editImageWithGemini env (url img) (ed_editPrompt es) of
             (Inr newImageUrl, calls) \<Rightarrow>
               let newImage = \<lparr>id' = generatedId, url = newImageUrl,
                               prompt = ''Edit of '' @ [CHR 0x22] @ prompt img @ [CHR 0x22]
                                          @ '': '' @ ed_editPrompt es,
                               aspectRatio = aspectRatio img,
                               timestamp = now, model = ''gemini-2.5-flash-image'',
                               parentId = None\<rparr>
               in ((es\<lparr>ed_isProcessing := False, ed_error := None, ed_editPrompt := []\<rparr>,
                    handleImageGenerated newImage st), calls)
           | (Inl err, calls) \<Rightarrow>
               ((es\<lparr>ed_isProcessing := False,
                     ed_error := Some (or_else (message err) ''Failed to edit image'')\<rparr>,
                 st), calls)))"

subsection \<open>The history lineage\<close>

text \<open>
  The \<open>while\<close> loop of \<open>historyLineage\<close>: \<open>cur\<close> is the record \<open>curr\<close> under inspection
  (\<open>None\<close> for \<open>undefined\<close>), \<open>visited\<close> the set of ids seen, \<open>lineage\<close> the array
  built by \<open>unshift\<close>. \<open>if (curr.parentId)\<close> is a truthiness test, so an empty
  \<open>parentId\<close> ends the walk as a missing one does.
\<close>

function trace_parents ::
  "GeneratedImage list \<Rightarrow> GeneratedImage option \<Rightarrow> string list \<Rightarrow> GeneratedImage list
     \<Rightarrow> string list \<times> GeneratedImage list" where
  "trace_parents allImages None visited lineage = (visited, lineage)"
| "trace_parents allImages (Some cur) visited lineage =
     (if id' cur \<in> set visited then (visited, lineage)
      else trace_parents allImages
             (case parentId cur of
                None \<Rightarrow> None
              | Some pid \<Rightarrow>
                  if pid = [] then None else find (\<lambda>img. id' img = pid) allImages)
             (id' cur # visited) (cur # lineage))"
  by pat_completeness auto
termination
proof (relation "measure (\<lambda>(allImages, cur, visited, lineage).
         case cur of None \<Rightarrow> 0
         | Some c \<Rightarrow> Suc (card (insert (id' c) (id' ` set allImages) - set visited)))")
  show "wf (measure (\<lambda>(allImages, cur, visited, lineage).
         case cur of None \<Rightarrow> 0
         | Some c \<Rightarrow> Suc (card (insert (id' c) (id' ` set allImages) - set visited))))"
    by simp
next
  fix allImages :: "GeneratedImage list" and cur :: GeneratedImage
    and visited :: "string list" and lineage :: "GeneratedImage list"
  assume fresh: "id' cur \<notin> set visited"
  let ?next = "case parentId cur of None \<Rightarrow> None
     | Some pid \<Rightarrow> if pid = [] then None else find (\<lambda>img. id' img = pid) allImages"
  let ?ids = "id' ` set allImages"
  show "((allImages, ?next, id' cur # visited, cur # lineage),
         (allImages, Some cur, visited, lineage))
        \<in> measure (\<lambda>(allImages, cur, visited, lineage).
             case cur of None \<Rightarrow> 0
             | Some c \<Rightarrow> Suc (card (insert (id' c) (id' ` set allImages) - set visited)))"
  proof (cases ?next)
    case None
    then show ?thesis by simp
  next
    case (Some c)
    then have "c \<in> set allImages"
      by (auto split: option.splits if_splits simp: find_Some_iff)
    then have same: "insert (id' c) ?ids = ?ids" by auto
    have "?ids - set (id' cur # visited) \<subset> insert (id' cur) ?ids - set visited"
      using fresh by auto
    then have "card (?ids - set (id' cur # visited))
               < card (insert (id' cur) ?ids - set visited)"
      by (intro psubset_card_mono) auto
    with Some same show ?thesis by simp
  qed
qed

text \<open>
  \<open>historyLineage\<close>: the walk up from \<open>image\<close>, then the children of \<open>image\<close> in
  \<open>allImages\<close> whose id the walk has not seen, then a stable sort by \<open>timestamp\<close>.
\<close>

definition historyLineage :: "GeneratedImage \<Rightarrow> GeneratedImage list \<Rightarrow> GeneratedImage list" where
  "historyLineage img allImages =
     (case trace_parents allImages (Some img) [] [] of
        (visited, lineage) \<Rightarrow>
          let children = filter (\<lambda>i. parentId i = Some (id' img)) allImages
          in sort_key timestamp
               (lineage @ filter (\<lambda>child. id' child \<notin> set visited) children))"

section \<open>Sequences of user actions\<close>

text \<open>
  One user action, run to completion, with the values it reads from outside: the
  component state at the click, the generated id and the clock. The editor edits the
  selected image; the gallery selects and deletes stored images.
\<close>

datatype action =
    Submit GeneratorState string int
  | AiEdit EditorState "string option" string int
  | AiEdit_part_000 EditorState string int
  | Select GeneratedImage
  | Delete string

fun apply_action :: "Env \<Rightarrow> action \<Rightarrow> app_state \<Rightarrow> app_state" where
  "apply_action env (Submit gs uuid now) st = snd (fst (handleGenerate env uuid now (gs, st)))"
| "apply_action env (AiEdit es canvas uuid now) st =
     (case selectedImage st of
        None \<Rightarrow> st
      | Some img \<Rightarrow> snd (fst (handleAiEdit env uuid now canvas img (es, st))))"
| "apply_action env (AiEdit_part_000 es gid now) st =
     (case selectedImage st of
        None \<Rightarrow> st
      | Some img \<Rightarrow> snd (fst (handleAiEdit_part_000 env gid now img (es, st))))"
| "apply_action env (Select img) st =
     (if img \<in> set (images st) then handleSelectImage img st else st)"
| "apply_action env (Delete i) st = handleDeleteImage i st"

fun run :: "Env \<Rightarrow> action list \<Rightarrow> app_state \<Rightarrow> app_state" where
  "run env [] st = st"
| "run env (a # as) st = run env as (apply_action env a st)"

text \<open>The id an action would give to the record it creates.\<close>

fun action_id :: "action \<Rightarrow> string option" where
  "action_id (Submit gs uuid now) = Some uuid"
| "action_id (AiEdit es canvas uuid now) = Some uuid"
| "action_id (AiEdit_part_000 es gid now) = Some gid"
| "action_id (Select img) = None"
| "action_id (Delete i) = None"

text \<open>Every id generated along a run is new to the store at the moment it is used.\<close>

fun fresh_ids :: "Env \<Rightarrow> action list \<Rightarrow> app_state \<Rightarrow> bool" where
  "fresh_ids env [] st = True"
| "fresh_ids env (a # as) st =
     ((case action_id a of
         None \<Rightarrow> True
       | Some u \<Rightarrow> u \<notin> set (map id' (images st)))
      \<and> fresh_ids env as (apply_action env a st))"

definition valid_ratio :: "GeneratedImage \<Rightarrow> bool" where
  "valid_ratio r = (aspectRatio r \<in> set (map ratio_string ASPECT_RATIOS))"

definition ratios_ok :: "app_state \<Rightarrow> bool" where
  "ratios_ok st =
     (list_all valid_ratio (images st)
      \<and> (case selectedImage st of None \<Rightarrow> True | Some s \<Rightarrow> valid_ratio s))"

section \<open>Sample data\<close>

definition sample_image :: "string \<Rightarrow> int \<Rightarrow> string option \<Rightarrow> GeneratedImage" where
  "sample_image i t p =
     \<lparr>id' = i, url = ''data:image/png;base64,AAAA'', prompt = ''a banana'',
      aspectRatio = ''1:1'', timestamp = t, model = ''gemini-2.5-flash-image'',
      parentId = p\<rparr>"

definition sample_response :: Response where
  "sample_response =
     \<lparr>candidates = Some [\<lparr>parts = Some [\<lparr>inlineData =
        Some \<lparr>inl_data = Some ''BBBB'', inl_mimeType = None\<rparr>, part_text = None\<rparr>]\<rparr>]\<rparr>"

definition online_env :: Env where
  "online_env = \<lparr>API_KEY = Some ''key'', generateContent = (\<lambda>req. Inr sample_response)\<rparr>"

definition offline_env :: Env where
  "offline_env =
     \<lparr>API_KEY = Some ''key'',
      generateContent = (\<lambda>req. Inl (Error (Some ''503 Service Unavailable'')))\<rparr>"

definition sample_form :: "string \<Rightarrow> GeneratorState" where
  "sample_form p =
     \<lparr>gen_prompt = p, gen_aspectRatio = R_16_9, gen_loading = False, gen_error = None\<rparr>"

definition sample_editor :: "string \<Rightarrow> EditorState" where
  "sample_editor p = \<lparr>ed_editPrompt = p, ed_isProcessing = False, ed_error = None\<rparr>"

definition sample_store :: app_state where
  "sample_store =
     \<lparr>currentView = Gallery,
      images = [sample_image ''3'' 30 (Some ''2''), sample_image ''2'' 20 (Some ''1''),
                sample_image ''1'' 10 None],
      selectedImage = None\<rparr>"

text \<open>
  A record as foreign stored data may hold it, with an aspect ratio that is not
  enumerated, and two stand-ins for \<open>JSON.parse\<close>: one reads that record back, the
  other the sample store.
\<close>

definition wide_image :: GeneratedImage where
  "wide_image = (sample_image ''1'' 10 None)\<lparr>aspectRatio := ''2:1''\<rparr>"

definition foreign_parse :: "string \<Rightarrow> js_error + GeneratedImage list" where
  "foreign_parse s = Inr [wide_image]"

definition stored_parse :: "string \<Rightarrow> js_error + GeneratedImage list" where
  "stored_parse s = Inr (images sample_store)"

section \<open>Store operations\<close>

lemma images_handleDeleteImage:
  "images (handleDeleteImage i st) = filter (\<lambda>img. id' img \<noteq> i) (images st)"
  by (simp add: handleDeleteImage_def Let_def)

lemma images_handleImageGenerated:
  "images (handleImageGenerated r st) = r # images st"
  by (simp add: handleImageGenerated_def)

text \<open>
  Claim C5. Deleting by id removes every stored record with that id and nothing else:
  each record with another id stays, as often as before, with all its fields (so with its
  \<open>parentId\<close>), in the same relative order; when no record has the id the store is left
  as it was.
\<close>

theorem remove_frame:
  "(\<forall>r. count (mset (images (handleDeleteImage i st))) r =
         (if id' r = i then 0 else count (mset (images st)) r))
   \<and> subseq (images (handleDeleteImage i st)) (images st)
   \<and> map parentId (images (handleDeleteImage i st)) =
       map parentId (filter (\<lambda>img. id' img \<noteq> i) (images st))
   \<and> (i \<notin> id' ` set (images st) \<longrightarrow> images (handleDeleteImage i st) = images st)"
proof (intro conjI allI impI)
  fix r
  show "count (mset (images (handleDeleteImage i st))) r =
        (if id' r = i then 0 else count (mset (images st)) r)"
    by (simp add: images_handleDeleteImage)
next
  show "subseq (images (handleDeleteImage i st)) (images st)"
    by (simp add: images_handleDeleteImage)
next
  show "map parentId (images (handleDeleteImage i st)) =
        map parentId (filter (\<lambda>img. id' img \<noteq> i) (images st))"
    by (simp add: images_handleDeleteImage)
next
  assume "i \<notin> id' ` set (images st)"
  then have "\<forall>img \<in> set (images st). id' img \<noteq> i" by auto
  then show "images (handleDeleteImage i st) = images st"
    by (simp add: images_handleDeleteImage)
qed

text \<open>
  The frame property at the sample store: deleting an id that is not there changes
  nothing, and deleting record 2 leaves record 3 pointing at it.
\<close>

theorem remove_frame_witness:
  "''9'' \<notin> id' ` set (images sample_store)
   \<and> images (handleDeleteImage ''9'' sample_store) = images sample_store
   \<and> map parentId (images (handleDeleteImage ''2'' sample_store)) = [Some ''2'', None]"
proof -
  have absent: "''9'' \<notin> id' ` set (images sample_store)"
    by (simp add: sample_store_def sample_image_def)
  have kept: "map parentId (filter (\<lambda>img. id' img \<noteq> ''2'') (images sample_store))
              = [Some ''2'', None]"
    by (simp add: sample_store_def sample_image_def)
  from remove_frame [of "''9''" sample_store] absent
  have "images (handleDeleteImage ''9'' sample_store) = images sample_store" by blast
  moreover from remove_frame [of "''2''" sample_store] kept
  have "map parentId (images (handleDeleteImage ''2'' sample_store)) = [Some ''2'', None]"
    by simp
  ultimately show ?thesis using absent by blast
qed

text \<open>
  Claim C6. Appending puts the new record first and keeps the stored records behind it
  as they were, in their order. No id is compared: the number of stored records that
  carry the new record's id grows by one whatever the store holds.
\<close>

theorem append_front:
  "hd (images (handleImageGenerated r st)) = r
   \<and> tl (images (handleImageGenerated r st)) = images st
   \<and> length (filter (\<lambda>x. id' x = id' r) (images (handleImageGenerated r st)))
       = Suc (length (filter (\<lambda>x. id' x = id' r) (images st)))
   \<and> selectedImage (handleImageGenerated r st) = Some r
   \<and> currentView (handleImageGenerated r st) = EditorView"
  by (simp add: handleImageGenerated_def)

section \<open>Loading the persisted store\<close>

text \<open>
  Claim C3. When parsing the stored value throws, the mount effect ends normally: no
  error leaves it, the state is the initial one, whose store is empty, and, the stored
  string being non-empty so that parsing is tried at all, one line is logged.
\<close>

theorem load_malformed:
  assumes "parse s = Inl e"
  shows "\<exists>log. load_effect parse (Some s) initial_state = Inr (initial_state, log)
           \<and> images initial_state = []
           \<and> (s \<noteq> [] \<longrightarrow> log = [''Failed to parse database''])"
  using assms by (simp add: load_effect_def initial_state_def)

theorem load_malformed_witness:
  "(\<lambda>s. Inl (Error (Some ''Unexpected token''))) ''{not json''
     = (Inl (Error (Some ''Unexpected token'')) :: js_error + GeneratedImage list)
   \<and> (\<exists>log. load_effect (\<lambda>s. Inl (Error (Some ''Unexpected token''))) (Some ''{not json'')
                initial_state = Inr (initial_state, log)
            \<and> log = [''Failed to parse database''])"
  using load_malformed [of "\<lambda>s. Inl (Error (Some ''Unexpected token''))" "''{not json''"
      "Error (Some ''Unexpected token'')"]
  by simp

section \<open>The handlers\<close>

text \<open>
  Claim C10. A prompt that is empty after trimming makes the submit handler of the
  prompt form and the AI-edit handler of either editor return at once: component state
  and store are as before and no request is sent.
\<close>

theorem blank_prompt_noop:
  "(trim (gen_prompt gs) = [] \<longrightarrow>
      handleGenerate env uuid now (gs, st) = ((gs, st), []))
   \<and> (trim (ed_editPrompt es) = [] \<longrightarrow>
      handleAiEdit env uuid now canvas img (es, st) = ((es, st), [])
      \<and> handleAiEdit_part_000 env uuid now img (es, st) = ((es, st), []))"
  by (simp add: handleGenerate_def handleAiEdit_def handleAiEdit_part_000_def)

theorem blank_prompt_noop_witness:
  "trim (gen_prompt (sample_form [CHR 0x20, CHR 0x09, CHR 0x0A])) = []
   \<and> trim (ed_editPrompt (sample_editor ''   '')) = []
   \<and> handleGenerate online_env ''u1'' 5 (sample_form [CHR 0x20, CHR 0x09, CHR 0x0A], sample_store)
       = ((sample_form [CHR 0x20, CHR 0x09, CHR 0x0A], sample_store), [])
   \<and> handleAiEdit online_env ''u1'' 5 None (sample_image ''1'' 10 None)
         (sample_editor ''   '', sample_store)
       = ((sample_editor ''   '', sample_store), [])"
proof -
  have g: "trim (gen_prompt (sample_form [CHR 0x20, CHR 0x09, CHR 0x0A])) = []"
    by (simp add: trim_def isWhiteSpace_def sample_form_def)
  have e: "trim (ed_editPrompt (sample_editor ''   '')) = []"
    by (simp add: trim_def isWhiteSpace_def sample_editor_def)
  from blank_prompt_noop [of "sample_form [CHR 0x20, CHR 0x09, CHR 0x0A]" online_env "''u1''" 5
      sample_store "sample_editor ''   ''" None "sample_image ''1'' 10 None"] g e
  show ?thesis by blast
qed

subsection \<open>Failure of the gateway\<close>

lemma or_else_truthy: "b \<noteq> [] \<Longrightarrow> truthy (Some (or_else a b))"
  by (simp add: or_else_def truthy_def split: option.splits)

lemma generate_sends_at_most_one:
  "length (snd (generateImageWithGemini env p ar)) \<le> 1"
  by (simp add: generateImageWithGemini_def Let_def)

lemma edit_sends_at_most_one:
  "length (snd (editImageWithGemini env src p)) \<le> 1"
  by (simp add: editImageWithGemini_def Let_def split: option.splits)

lemma handleGenerate_failure:
  assumes "fst (generateImageWithGemini env (gen_prompt gs) (gen_aspectRatio gs)) = Inl err"
  shows "snd (fst (handleGenerate env uuid now (gs, st))) = st"
    and "length (snd (handleGenerate env uuid now (gs, st))) \<le> 1"
    and "trim (gen_prompt gs) \<noteq> [] \<Longrightarrow>
         gen_error (fst (fst (handleGenerate env uuid now (gs, st))))
           = Some (or_else (message err) ''Something went wrong while generating the image.'')"
    and "trim (gen_prompt gs) \<noteq> [] \<Longrightarrow> truthy (gen_error (fst (fst (handleGenerate env uuid now (gs, st)))))"
proof -
  obtain calls where c: "generateImageWithGemini env (gen_prompt gs) (gen_aspectRatio gs) = (Inl err, calls)"
    using assms by (cases "generateImageWithGemini env (gen_prompt gs) (gen_aspectRatio gs)") auto
  have "length calls \<le> 1"
    using generate_sends_at_most_one [of env "gen_prompt gs" "gen_aspectRatio gs"] c by simp
  then show "length (snd (handleGenerate env uuid now (gs, st))) \<le> 1"
    by (simp add: handleGenerate_def c)
  show "snd (fst (handleGenerate env uuid now (gs, st))) = st"
    by (simp add: handleGenerate_def c)
  show "trim (gen_prompt gs) \<noteq> [] \<Longrightarrow>
         gen_error (fst (fst (handleGenerate env uuid now (gs, st))))
           = Some (or_else (message err) ''Something went wrong while generating the image.'')"
    by (simp add: handleGenerate_def c)
  show "trim (gen_prompt gs) \<noteq> [] \<Longrightarrow> truthy (gen_error (fst (fst (handleGenerate env uuid now (gs, st)))))"
    by (simp add: handleGenerate_def c or_else_truthy)
qed

lemma handleAiEdit_failure:
  assumes "fst (editImageWithGemini env (case canvas of Some c \<Rightarrow> c | None \<Rightarrow> url img) (ed_editPrompt es)) = Inl err"
  shows "snd (fst (handleAiEdit env uuid now canvas img (es, st))) = st"
    and "length (snd (handleAiEdit env uuid now canvas img (es, st))) \<le> 1"
    and "trim (ed_editPrompt es) \<noteq> [] \<Longrightarrow>
         ed_error (fst (fst (handleAiEdit env uuid now canvas img (es, st))))
           = Some (or_else (message err) ''Failed to edit image'')"
    and "trim (ed_editPrompt es) \<noteq> [] \<Longrightarrow> truthy (ed_error (fst (fst (handleAiEdit env uuid now canvas img (es, st)))))"
proof -
  let ?src = "case canvas of Some c \<Rightarrow> c | None \<Rightarrow> url img"
  obtain calls where c: "editImageWithGemini env ?src (ed_editPrompt es) = (Inl err, calls)"
    using assms by (cases "editImageWithGemini env ?src (ed_editPrompt es)") auto
  have "length calls \<le> 1"
    using edit_sends_at_most_one [of env ?src "ed_editPrompt es"] c by simp
  then show "length (snd (handleAiEdit env uuid now canvas img (es, st))) \<le> 1"
    by (simp add: handleAiEdit_def c Let_def)
  show "snd (fst (handleAiEdit env uuid now canvas img (es, st))) = st"
    by (simp add: handleAiEdit_def c Let_def)
  show "trim (ed_editPrompt es) \<noteq> [] \<Longrightarrow>
         ed_error (fst (fst (handleAiEdit env uuid now canvas img (es, st))))
           = Some (or_else (message err) ''Failed to edit image'')"
    by (simp add: handleAiEdit_def c Let_def)
  show "trim (ed_editPrompt es) \<noteq> [] \<Longrightarrow> truthy (ed_error (fst (fst (handleAiEdit env uuid now canvas img (es, st)))))"
    by (simp add: handleAiEdit_def c Let_def or_else_truthy)
qed

lemma handleAiEdit_part_000_failure:
  assumes "fst (editImageWithGemini env (url img) (ed_editPrompt es)) = Inl err"
  shows "snd (fst (handleAiEdit_part_000 env uuid now img (es, st))) = st"
    and "length (snd (handleAiEdit_part_000 env uuid now img (es, st))) \<le> 1"
    and "trim (ed_editPrompt es) \<noteq> [] \<Longrightarrow>
         ed_error (fst (fst (handleAiEdit_part_000 env uuid now img (es, st))))
           = Some (or_else (message err) ''Failed to edit image'')"
    and "trim (ed_editPrompt es) \<noteq> [] \<Longrightarrow> truthy (ed_error (fst (fst (handleAiEdit_part_000 env uuid now img (es, st)))))"
proof -
  obtain calls where c: "editImageWithGemini env (url img) (ed_editPrompt es) = (Inl err, calls)"
    using assms by (cases "editImageWithGemini env (url img) (ed_editPrompt es)") auto
  have "length calls \<le> 1"
    using edit_sends_at_most_one [of env "url img" "ed_editPrompt es"] c by simp
  then show "length (snd (handleAiEdit_part_000 env uuid now img (es, st))) \<le> 1"
    by (simp add: handleAiEdit_part_000_def c)
  show "snd (fst (handleAiEdit_part_000 env uuid now img (es, st))) = st"
    by (simp add: handleAiEdit_part_000_def c)
  show "trim (ed_editPrompt es) \<noteq> [] \<Longrightarrow>
         ed_error (fst (fst (handleAiEdit_part_000 env uuid now img (es, st))))
           = Some (or_else (message err) ''Failed to edit image'')"
    by (simp add: handleAiEdit_part_000_def c)
  show "trim (ed_editPrompt es) \<noteq> [] \<Longrightarrow> truthy (ed_error (fst (fst (handleAiEdit_part_000 env uuid now img (es, st)))))"
    by (simp add: handleAiEdit_part_000_def c or_else_truthy)
qed

text \<open>
  Claim C4. When the gateway call of a handler throws, whatever the cause (no API key,
  the remote model throwing, a response without image data, a source that is not a data
  URL), the state of \<open>App\<close> after the handler is the state before it, so no record is
  appended; the handler has sent at most one request, so nothing is retried; and the
  component's error message is set to the error's message, or to the handler's default
  text when that is empty, so it is a non-empty text, which the component renders.
\<close>

theorem gateway_failure_commits_nothing:
  "(fst (generateImageWithGemini env (gen_prompt gs) (gen_aspectRatio gs)) = Inl err \<longrightarrow>
      snd (fst (handleGenerate env uuid now (gs, st))) = st
      \<and> length (snd (handleGenerate env uuid now (gs, st))) \<le> 1
      \<and> (trim (gen_prompt gs) \<noteq> [] \<longrightarrow>
           gen_error (fst (fst (handleGenerate env uuid now (gs, st))))
             = Some (or_else (message err) ''Something went wrong while generating the image.''))
      \<and> (trim (gen_prompt gs) \<noteq> [] \<longrightarrow> truthy (gen_error (fst (fst (handleGenerate env uuid now (gs, st)))))))
   \<and> (fst (editImageWithGemini env (case canvas of Some c \<Rightarrow> c | None \<Rightarrow> url img)
             (ed_editPrompt es)) = Inl err \<longrightarrow>
      snd (fst (handleAiEdit env uuid now canvas img (es, st))) = st
      \<and> length (snd (handleAiEdit env uuid now canvas img (es, st))) \<le> 1
      \<and> (trim (ed_editPrompt es) \<noteq> [] \<longrightarrow>
           ed_error (fst (fst (handleAiEdit env uuid now canvas img (es, st))))
             = Some (or_else (message err) ''Failed to edit image''))
      \<and> (trim (ed_editPrompt es) \<noteq> [] \<longrightarrow> truthy (ed_error (fst (fst (handleAiEdit env uuid now canvas img (es, st)))))))
   \<and> (fst (editImageWithGemini env (url img) (ed_editPrompt es)) = Inl err \<longrightarrow>
      snd (fst (handleAiEdit_part_000 env uuid now img (es, st))) = st
      \<and> length (snd (handleAiEdit_part_000 env uuid now img (es, st))) \<le> 1
      \<and> (trim (ed_editPrompt es) \<noteq> [] \<longrightarrow>
           ed_error (fst (fst (handleAiEdit_part_000 env uuid now img (es, st))))
             = Some (or_else (message err) ''Failed to edit image''))
      \<and> (trim (ed_editPrompt es) \<noteq> [] \<longrightarrow> truthy (ed_error (fst (fst (handleAiEdit_part_000 env uuid now img (es, st)))))))"
  by (intro conjI impI;
      (erule (1) handleGenerate_failure handleAiEdit_failure handleAiEdit_part_000_failure
       | erule handleGenerate_failure handleAiEdit_failure handleAiEdit_part_000_failure))

lemma offline_generate:
  "fst (generateImageWithGemini offline_env ''cat'' R_16_9) = Inl (Error (Some ''503 Service Unavailable''))"
  by (simp add: generateImageWithGemini_def offline_env_def truthy_def or_else_def)

lemma offline_edit:
  "fst (editImageWithGemini offline_env ''data:image/png;base64,AAAA'' ''add a hat'') = Inl (Error (Some ''503 Service Unavailable''))"
  by (simp add: editImageWithGemini_def offline_env_def truthy_def or_else_def match_data_url_def isLineTerminator_def)

theorem gateway_failure_commits_nothing_witness:
  "fst (generateImageWithGemini offline_env (gen_prompt (sample_form ''cat'')) (gen_aspectRatio (sample_form ''cat'')))
     = Inl (Error (Some ''503 Service Unavailable''))
   \<and> trim (gen_prompt (sample_form ''cat'')) \<noteq> []
   \<and> snd (fst (handleGenerate offline_env ''u1'' 5 (sample_form ''cat'', sample_store))) = sample_store
   \<and> gen_error (fst (fst (handleGenerate offline_env ''u1'' 5 (sample_form ''cat'', sample_store))))
       = Some ''503 Service Unavailable''
   \<and> fst (editImageWithGemini offline_env (case None of Some c \<Rightarrow> c | None \<Rightarrow> url (sample_image ''1'' 10 None))
            (ed_editPrompt (sample_editor ''add a hat'')))
     = Inl (Error (Some ''503 Service Unavailable''))
   \<and> trim (ed_editPrompt (sample_editor ''add a hat'')) \<noteq> []
   \<and> snd (fst (handleAiEdit offline_env ''u1'' 5 None (sample_image ''1'' 10 None)
                 (sample_editor ''add a hat'', sample_store))) = sample_store
   \<and> ed_error (fst (fst (handleAiEdit offline_env ''u1'' 5 None (sample_image ''1'' 10 None)
                 (sample_editor ''add a hat'', sample_store)))) = Some ''503 Service Unavailable''
   \<and> snd (fst (handleAiEdit_part_000 offline_env ''u1'' 5 (sample_image ''1'' 10 None)
                 (sample_editor ''add a hat'', sample_store))) = sample_store"
proof -
  have g: "fst (generateImageWithGemini offline_env (gen_prompt (sample_form ''cat'')) (gen_aspectRatio (sample_form ''cat'')))
     = Inl (Error (Some ''503 Service Unavailable''))"
    using offline_generate by (simp add: sample_form_def)
  have gt: "trim (gen_prompt (sample_form ''cat'')) \<noteq> []"
    by (simp add: sample_form_def trim_def isWhiteSpace_def)
  have e: "fst (editImageWithGemini offline_env (case None of Some c \<Rightarrow> c | None \<Rightarrow> url (sample_image ''1'' 10 None))
            (ed_editPrompt (sample_editor ''add a hat'')))
     = Inl (Error (Some ''503 Service Unavailable''))"
    using offline_edit by (simp add: sample_editor_def sample_image_def)
  then have e0: "fst (editImageWithGemini offline_env (url (sample_image ''1'' 10 None))
            (ed_editPrompt (sample_editor ''add a hat'')))
     = Inl (Error (Some ''503 Service Unavailable''))" by simp
  have et: "trim (ed_editPrompt (sample_editor ''add a hat'')) \<noteq> []"
    by (simp add: sample_editor_def trim_def isWhiteSpace_def)
  have m: "or_else (message (Error (Some ''503 Service Unavailable''))) x = ''503 Service Unavailable''" for x
    by (simp add: or_else_def)
  from gateway_failure_commits_nothing [where env = offline_env and gs = "sample_form ''cat''"
      and err = "Error (Some ''503 Service Unavailable'')" and uuid = "''u1''" and now = 5
      and st = sample_store and canvas = None and img = "sample_image ''1'' 10 None"
      and es = "sample_editor ''add a hat''"] g gt e e0 et m
  show ?thesis by simp
qed

subsection \<open>The parent link\<close>

lemma handleAiEdit_images:
  "images (snd (fst (handleAiEdit env uuid now canvas img (es, st)))) = images st
   \<or> (\<exists>r. images (snd (fst (handleAiEdit env uuid now canvas img (es, st)))) = r # images st
          \<and> id' r = uuid \<and> parentId r = Some (id' img) \<and> aspectRatio r = aspectRatio img)"
  by (cases "editImageWithGemini env (case canvas of Some c \<Rightarrow> c | None \<Rightarrow> url img)
               (ed_editPrompt es)")
     (auto simp: handleAiEdit_def Let_def handleImageGenerated_def split: sum.splits)

lemma handleAiEdit_part_000_images:
  "images (snd (fst (handleAiEdit_part_000 env gid now img (es, st)))) = images st
   \<or> (\<exists>r. images (snd (fst (handleAiEdit_part_000 env gid now img (es, st)))) = r # images st
          \<and> id' r = gid \<and> parentId r = None \<and> aspectRatio r = aspectRatio img)"
  by (cases "editImageWithGemini env (url img) (ed_editPrompt es)")
     (auto simp: handleAiEdit_part_000_def Let_def handleImageGenerated_def split: sum.splits)

lemma handleGenerate_images:
  "images (snd (fst (handleGenerate env uuid now (gs, st)))) = images st
   \<or> (\<exists>r. images (snd (fst (handleGenerate env uuid now (gs, st)))) = r # images st
          \<and> id' r = uuid \<and> parentId r = None
          \<and> aspectRatio r = ratio_string (gen_aspectRatio gs))"
  by (cases "generateImageWithGemini env (gen_prompt gs) (gen_aspectRatio gs)")
     (auto simp: handleGenerate_def Let_def handleImageGenerated_def split: sum.splits)

lemma online_generate:
  "generateImageWithGemini online_env p ar
     = (Inr ''data:image/png;base64,BBBB'',
        [\<lparr>req_model = ''gemini-2.5-flash-image'', req_inlineData = None,
          req_text = p, req_aspectRatio = Some ar\<rparr>])"
  by (simp add: generateImageWithGemini_def online_env_def truthy_def or_else_def
      extractImageFromResponse_def sample_response_def)

lemma online_edit:
  "editImageWithGemini online_env ''data:image/png;base64,AAAA'' p
     = (Inr ''data:image/png;base64,BBBB'',
        [\<lparr>req_model = ''gemini-2.5-flash-image'',
          req_inlineData = Some (''image/png'', ''AAAA''),
          req_text = p, req_aspectRatio = None\<rparr>])"
  by (simp add: editImageWithGemini_def online_env_def truthy_def or_else_def
      extractImageFromResponse_def sample_response_def match_data_url_def isLineTerminator_def)

lemma trim_add_a_hat: "trim ''add a hat'' \<noteq> []"
  by (simp add: trim_def isWhiteSpace_def)

text \<open>
  Claim C1, as stated, fails on the editor of src/unnamed/part_000: an edit of record 1
  appends a record that carries no \<open>parentId\<close>.
\<close>

theorem edit_part_000_no_parent:
  "length (images (snd (fst (handleAiEdit_part_000 online_env ''g2'' 11
              (sample_image ''1'' 10 None) (sample_editor ''add a hat'', initial_state))))) = 1
   \<and> parentId (hd (images (snd (fst (handleAiEdit_part_000 online_env ''g2'' 11
              (sample_image ''1'' 10 None) (sample_editor ''add a hat'', initial_state))))))
       \<noteq> Some (id' (sample_image ''1'' 10 None))"
  using trim_add_a_hat
  by (simp add: handleAiEdit_part_000_def sample_editor_def sample_image_def online_edit
      handleImageGenerated_def initial_state_def Let_def)

text \<open>
  Claim C1, amended. A record appended by the AI-edit handler of components/Editor.tsx
  has \<open>parentId\<close> set to the id of the image it was edited from; a record appended by
  the generation handler has none; a record appended by the editor of
  src/unnamed/part_000 has none either.
\<close>

theorem parent_link:
  "(images (snd (fst (handleAiEdit env uuid now canvas img (es, st)))) \<noteq> images st \<longrightarrow>
      (\<exists>r. images (snd (fst (handleAiEdit env uuid now canvas img (es, st)))) = r # images st
          \<and> parentId r = Some (id' img)))
   \<and> (images (snd (fst (handleGenerate env uuid now (gs, st)))) \<noteq> images st \<longrightarrow>
      (\<exists>r. images (snd (fst (handleGenerate env uuid now (gs, st)))) = r # images st
          \<and> parentId r = None))
   \<and> (images (snd (fst (handleAiEdit_part_000 env uuid now img (es, st)))) \<noteq> images st \<longrightarrow>
      (\<exists>r. images (snd (fst (handleAiEdit_part_000 env uuid now img (es, st)))) = r # images st
          \<and> parentId r = None))"
  using handleAiEdit_images [of env uuid now canvas img es st]
    handleGenerate_images [of env uuid now gs st]
    handleAiEdit_part_000_images [of env uuid now img es st]
  by blast

theorem parent_link_witness:
  "images (snd (fst (handleAiEdit online_env ''u2'' 11 None (sample_image ''1'' 10 None)
              (sample_editor ''add a hat'', initial_state)))) \<noteq> images initial_state
   \<and> map parentId (images (snd (fst (handleAiEdit online_env ''u2'' 11 None
              (sample_image ''1'' 10 None) (sample_editor ''add a hat'', initial_state)))))
       = [Some ''1'']
   \<and> images (snd (fst (handleGenerate online_env ''u2'' 11
              (sample_form ''cat'', initial_state)))) \<noteq> images initial_state
   \<and> map parentId (images (snd (fst (handleGenerate online_env ''u2'' 11
              (sample_form ''cat'', initial_state))))) = [None]"
proof -
  let ?e = "images (snd (fst (handleAiEdit online_env ''u2'' 11 None (sample_image ''1'' 10 None)
              (sample_editor ''add a hat'', initial_state))))"
  let ?g = "images (snd (fst (handleGenerate online_env ''u2'' 11
              (sample_form ''cat'', initial_state))))"
  have e: "?e \<noteq> images initial_state"
    using trim_add_a_hat
    by (simp add: handleAiEdit_def sample_editor_def sample_image_def online_edit
        handleImageGenerated_def initial_state_def Let_def)
  have g: "?g \<noteq> images initial_state"
    by (simp add: handleGenerate_def sample_form_def online_generate trim_def isWhiteSpace_def
        handleImageGenerated_def initial_state_def Let_def)
  have i: "images initial_state = []" "id' (sample_image ''1'' 10 None) = ''1''"
    by (simp_all add: initial_state_def sample_image_def)
  from parent_link [where env = online_env and uuid = "''u2''" and now = 11 and canvas = None
      and img = "sample_image ''1'' 10 None" and es = "sample_editor ''add a hat''"
      and st = initial_state and gs = "sample_form ''cat''"] e g
  have "(\<exists>r. ?e = r # images initial_state \<and> parentId r = Some (id' (sample_image ''1'' 10 None)))"
    and "(\<exists>r. ?g = r # images initial_state \<and> parentId r = None)"
    by blast+
  then have "map parentId ?e = [Some ''1'']" and "map parentId ?g = [None]"
    using i by auto
  with e g show ?thesis by blast
qed

subsection \<open>Sources that are not data URLs\<close>

lemma greedy_split_sound:
  "greedy_split r = Some (g1, g2) \<Longrightarrow> g1 \<noteq> [] \<and> g2 \<noteq> [] \<and> r = g1 @ '';base64,'' @ g2"
proof (induction r arbitrary: g1 g2)
  case Nil
  then show ?case by simp
next
  case (Cons c cs)
  show ?case
  proof (cases "greedy_split cs")
    case None
    with Cons.prems have t: "take 8 cs = '';base64,''" and d: "drop 8 cs \<noteq> []"
      and g: "g1 = [c]" "g2 = drop 8 cs"
      by (auto split: if_splits)
    have "cs = take 8 cs @ drop 8 cs" by simp
    with t g d show ?thesis by simp
  next
    case (Some a)
    obtain h1 h2 where a: "a = (h1, h2)" by (cases a)
    with Some Cons.prems have g: "g1 = c # h1" "g2 = h2" by auto
    from Cons.IH [of h1 h2] Some a have "h2 \<noteq> [] \<and> cs = h1 @ '';base64,'' @ h2" by simp
    with g show ?thesis by simp
  qed
qed

lemma greedy_split_complete:
  "g1 \<noteq> [] \<Longrightarrow> g2 \<noteq> [] \<Longrightarrow> greedy_split (g1 @ '';base64,'' @ g2) \<noteq> None"
proof (induction g1)
  case Nil
  then show ?case by simp
next
  case (Cons c g1)
  show ?case
  proof (cases "g1 = []")
    case True
    with Cons.prems show ?thesis by (simp split: option.splits)
  next
    case False
    with Cons have "greedy_split (g1 @ '';base64,'' @ g2) \<noteq> None" by simp
    then show ?thesis by (auto split: option.splits)
  qed
qed

lemma match_data_url_shape:
  assumes "match_data_url s = Some m"
  shows "data_url_shape s"
proof -
  from assms have p: "take 5 s = ''data:''"
    and "greedy_split (drop 5 s) \<noteq> None"
    by (auto simp: match_data_url_def split: if_splits option.splits)
  then obtain g1 g2 where "greedy_split (drop 5 s) = Some (g1, g2)" by auto
  then have g: "g1 \<noteq> []" "g2 \<noteq> []" "drop 5 s = g1 @ '';base64,'' @ g2"
    using greedy_split_sound by blast+
  have "s = take 5 s @ drop 5 s" by simp
  with p g have "s = ''data:'' @ g1 @ '';base64,'' @ g2" by simp
  with g show ?thesis unfolding data_url_shape_def by blast
qed

lemma match_data_url_iff:
  "match_data_url s \<noteq> None \<longleftrightarrow>
     (\<exists>mime dat. mime \<noteq> [] \<and> dat \<noteq> []
        \<and> list_all (\<lambda>c. \<not> isLineTerminator c) (mime @ dat)
        \<and> s = ''data:'' @ mime @ '';base64,'' @ dat)"
proof
  assume "match_data_url s \<noteq> None"
  then have p: "take 5 s = ''data:''"
    and lt: "list_all (\<lambda>c. \<not> isLineTerminator c) (drop 5 s)"
    and "greedy_split (drop 5 s) \<noteq> None"
    by (auto simp: match_data_url_def split: if_splits option.splits)
  then obtain g1 g2 where "greedy_split (drop 5 s) = Some (g1, g2)" by auto
  then have g: "g1 \<noteq> []" "g2 \<noteq> []" "drop 5 s = g1 @ '';base64,'' @ g2"
    using greedy_split_sound by blast+
  have "s = take 5 s @ drop 5 s" by simp
  with p g have s: "s = ''data:'' @ g1 @ '';base64,'' @ g2" by simp
  from lt g have "list_all (\<lambda>c. \<not> isLineTerminator c) (g1 @ g2)" by simp
  with g s show "\<exists>mime dat. mime \<noteq> [] \<and> dat \<noteq> []
        \<and> list_all (\<lambda>c. \<not> isLineTerminator c) (mime @ dat)
        \<and> s = ''data:'' @ mime @ '';base64,'' @ dat" by blast
next
  assume "\<exists>mime dat. mime \<noteq> [] \<and> dat \<noteq> []
        \<and> list_all (\<lambda>c. \<not> isLineTerminator c) (mime @ dat)
        \<and> s = ''data:'' @ mime @ '';base64,'' @ dat"
  then obtain mime dat where m: "mime \<noteq> []" "dat \<noteq> []"
    and lt: "list_all (\<lambda>c. \<not> isLineTerminator c) (mime @ dat)"
    and s: "s = ''data:'' @ mime @ '';base64,'' @ dat" by blast
  from lt have "list_all (\<lambda>c. \<not> isLineTerminator c) (mime @ '';base64,'' @ dat)"
    by (simp add: isLineTerminator_def)
  moreover from m have "greedy_split (mime @ '';base64,'' @ dat) \<noteq> None"
    by (rule greedy_split_complete)
  ultimately show "match_data_url s \<noteq> None"
    using s by (auto simp: match_data_url_def split: option.splits)
qed

text \<open>
  Claim C8. For a source string that is not of the shape \<open>data:<mime>;base64,<data>\<close>
  the edit function throws and has sent no request to the remote model; with an API key
  configured the error is the invalid-format one.
\<close>

theorem edit_rejects_non_data_url:
  assumes "\<not> data_url_shape s"
  shows "(\<exists>e. fst (editImageWithGemini env s p) = Inl e)
       \<and> snd (editImageWithGemini env s p) = []
       \<and> (truthy (API_KEY env) \<longrightarrow>
            fst (editImageWithGemini env s p)
              = Inl (Error (Some ''Invalid image format. Expected data URL.'')))"
proof -
  from assms have "match_data_url s = None"
    using match_data_url_shape by (cases "match_data_url s") auto
  then show ?thesis by (simp add: editImageWithGemini_def)
qed

theorem edit_rejects_non_data_url_witness:
  "\<not> data_url_shape ''https://example.com/cat.png''
   \<and> truthy (API_KEY online_env)
   \<and> editImageWithGemini online_env ''https://example.com/cat.png'' ''add a hat''
       = (Inl (Error (Some ''Invalid image format. Expected data URL.'')), [])"
proof -
  have n: "\<not> data_url_shape ''https://example.com/cat.png''"
    by (simp add: data_url_shape_def)
  have k: "truthy (API_KEY online_env)" by (simp add: online_env_def truthy_def)
  from edit_rejects_non_data_url [OF n, of online_env "''add a hat''"] k
  show ?thesis using n by (simp add: prod_eq_iff)
qed

section \<open>Invariants of the store\<close>

lemma handleGenerate_state:
  "snd (fst (handleGenerate env uuid now (gs, st))) = st
   \<or> (\<exists>r. snd (fst (handleGenerate env uuid now (gs, st))) = handleImageGenerated r st
          \<and> id' r = uuid \<and> aspectRatio r = ratio_string (gen_aspectRatio gs))"
  by (cases "generateImageWithGemini env (gen_prompt gs) (gen_aspectRatio gs)")
     (auto simp: handleGenerate_def Let_def split: sum.splits)

lemma handleAiEdit_state:
  "snd (fst (handleAiEdit env uuid now canvas img (es, st))) = st
   \<or> (\<exists>r. snd (fst (handleAiEdit env uuid now canvas img (es, st))) = handleImageGenerated r st
          \<and> id' r = uuid \<and> aspectRatio r = aspectRatio img)"
  by (cases "editImageWithGemini env (case canvas of Some c \<Rightarrow> c | None \<Rightarrow> url img)
               (ed_editPrompt es)")
     (auto simp: handleAiEdit_def Let_def split: sum.splits)

lemma handleAiEdit_part_000_state:
  "snd (fst (handleAiEdit_part_000 env gid now img (es, st))) = st
   \<or> (\<exists>r. snd (fst (handleAiEdit_part_000 env gid now img (es, st))) = handleImageGenerated r st
          \<and> id' r = gid \<and> aspectRatio r = aspectRatio img)"
  by (cases "editImageWithGemini env (url img) (ed_editPrompt es)")
     (auto simp: handleAiEdit_part_000_def Let_def split: sum.splits)

subsection \<open>Aspect ratios\<close>

lemma ratio_string_valid: "ratio_string ar \<in> set (map ratio_string ASPECT_RATIOS)"
  by (cases ar) (simp_all add: ASPECT_RATIOS_def)

lemma ratios_ok_handleImageGenerated:
  "ratios_ok st \<Longrightarrow> valid_ratio r \<Longrightarrow> ratios_ok (handleImageGenerated r st)"
  by (simp add: ratios_ok_def handleImageGenerated_def)

lemma ratios_ok_handleDeleteImage: "ratios_ok st \<Longrightarrow> ratios_ok (handleDeleteImage i st)"
  by (auto simp: ratios_ok_def handleDeleteImage_def Let_def list_all_iff split: option.splits)

lemma ratios_ok_handleSelectImage:
  "ratios_ok st \<Longrightarrow> img \<in> set (images st) \<Longrightarrow> ratios_ok (handleSelectImage img st)"
  by (auto simp: ratios_ok_def handleSelectImage_def list_all_iff)

lemma ratios_ok_apply_action:
  assumes "ratios_ok st"
  shows "ratios_ok (apply_action env a st)"
proof (cases a)
  case (Submit gs uuid now)
  from handleGenerate_state [of env uuid now gs st] show ?thesis
  proof
    assume "snd (fst (handleGenerate env uuid now (gs, st))) = st"
    with Submit assms show ?thesis by simp
  next
    assume "\<exists>r. snd (fst (handleGenerate env uuid now (gs, st))) = handleImageGenerated r st
          \<and> id' r = uuid \<and> aspectRatio r = ratio_string (gen_aspectRatio gs)"
    then obtain r where r: "snd (fst (handleGenerate env uuid now (gs, st))) = handleImageGenerated r st"
      and "aspectRatio r = ratio_string (gen_aspectRatio gs)" by blast
    then have "valid_ratio r" by (simp add: valid_ratio_def ratio_string_valid del: set_map)
    with Submit assms r show ?thesis by (simp add: ratios_ok_handleImageGenerated)
  qed
next
  case (AiEdit es canvas uuid now)
  show ?thesis
  proof (cases "selectedImage st")
    case None
    with AiEdit assms show ?thesis by simp
  next
    case (Some img)
    with assms have v: "valid_ratio img" by (simp add: ratios_ok_def)
    from handleAiEdit_state [of env uuid now canvas img es st] show ?thesis
    proof
      assume "snd (fst (handleAiEdit env uuid now canvas img (es, st))) = st"
      with AiEdit Some assms show ?thesis by simp
    next
      assume "\<exists>r. snd (fst (handleAiEdit env uuid now canvas img (es, st))) = handleImageGenerated r st
          \<and> id' r = uuid \<and> aspectRatio r = aspectRatio img"
      then obtain r where r: "snd (fst (handleAiEdit env uuid now canvas img (es, st))) = handleImageGenerated r st"
        and "aspectRatio r = aspectRatio img" by blast
      with v have "valid_ratio r" by (simp add: valid_ratio_def)
      with AiEdit Some assms r show ?thesis by (simp add: ratios_ok_handleImageGenerated)
    qed
  qed
next
  case (AiEdit_part_000 es gid now)
  show ?thesis
  proof (cases "selectedImage st")
    case None
    with AiEdit_part_000 assms show ?thesis by simp
  next
    case (Some img)
    with assms have v: "valid_ratio img" by (simp add: ratios_ok_def)
    from handleAiEdit_part_000_state [of env gid now img es st] show ?thesis
    proof
      assume "snd (fst (handleAiEdit_part_000 env gid now img (es, st))) = st"
      with AiEdit_part_000 Some assms show ?thesis by simp
    next
      assume "\<exists>r. snd (fst (handleAiEdit_part_000 env gid now img (es, st))) = handleImageGenerated r st
          \<and> id' r = gid \<and> aspectRatio r = aspectRatio img"
      then obtain r where r: "snd (fst (handleAiEdit_part_000 env gid now img (es, st))) = handleImageGenerated r st"
        and "aspectRatio r = aspectRatio img" by blast
      with v have "valid_ratio r" by (simp add: valid_ratio_def)
      with AiEdit_part_000 Some assms r show ?thesis by (simp add: ratios_ok_handleImageGenerated)
    qed
  qed
next
  case (Select img)
  with assms show ?thesis by (simp add: ratios_ok_handleSelectImage)
next
  case (Delete i)
  with assms show ?thesis by (simp add: ratios_ok_handleDeleteImage)
qed

lemma ratios_ok_run: "ratios_ok st \<Longrightarrow> ratios_ok (run env acts st)"
  by (induction acts arbitrary: st) (simp_all add: ratios_ok_apply_action)

lemma handleGenerate_success:
  assumes "trim (gen_prompt gs) \<noteq> []"
    and "fst (generateImageWithGemini env (gen_prompt gs) (gen_aspectRatio gs)) = Inr u"
  shows "\<exists>r. images (snd (fst (handleGenerate env uuid now (gs, st)))) = r # images st
            \<and> aspectRatio r = ratio_string (gen_aspectRatio gs)"
proof -
  obtain calls where
    c: "generateImageWithGemini env (gen_prompt gs) (gen_aspectRatio gs) = (Inr u, calls)"
    using assms(2)
    by (cases "generateImageWithGemini env (gen_prompt gs) (gen_aspectRatio gs)") auto
  show ?thesis
    using assms(1) by (simp add: handleGenerate_def c Let_def handleImageGenerated_def)
qed

lemma handleAiEdit_success:
  assumes "trim (ed_editPrompt es) \<noteq> []"
    and "fst (editImageWithGemini env (case canvas of Some c \<Rightarrow> c | None \<Rightarrow> url img)
               (ed_editPrompt es)) = Inr u"
  shows "\<exists>r. images (snd (fst (handleAiEdit env uuid now canvas img (es, st)))) = r # images st
            \<and> aspectRatio r = aspectRatio img"
proof -
  let ?src = "case canvas of Some c \<Rightarrow> c | None \<Rightarrow> url img"
  obtain calls where c: "editImageWithGemini env ?src (ed_editPrompt es) = (Inr u, calls)"
    using assms(2) by (cases "editImageWithGemini env ?src (ed_editPrompt es)") auto
  show ?thesis
    using assms(1) by (simp add: handleAiEdit_def c Let_def handleImageGenerated_def)
qed

lemma handleAiEdit_part_000_success:
  assumes "trim (ed_editPrompt es) \<noteq> []"
    and "fst (editImageWithGemini env (url img) (ed_editPrompt es)) = Inr u"
  shows "\<exists>r. images (snd (fst (handleAiEdit_part_000 env gid now img (es, st)))) = r # images st
            \<and> aspectRatio r = aspectRatio img"
proof -
  obtain calls where c: "editImageWithGemini env (url img) (ed_editPrompt es) = (Inr u, calls)"
    using assms(2) by (cases "editImageWithGemini env (url img) (ed_editPrompt es)") auto
  show ?thesis
    using assms(1) by (simp add: handleAiEdit_part_000_def c Let_def handleImageGenerated_def)
qed

lemma load_effect_ratios_ok:
  assumes "\<forall>s v. parse s = Inr v \<longrightarrow> list_all valid_ratio v"
    and "load_effect parse saved initial_state = Inr (st', log)"
  shows "ratios_ok st'"
proof (cases saved)
  case None
  with assms(2) have "st' = initial_state" by (simp add: load_effect_def)
  then show ?thesis by (simp add: ratios_ok_def initial_state_def)
next
  case (Some s)
  show ?thesis
  proof (cases "parse s")
    case (Inl e)
    with Some assms(2) have "st' = initial_state"
      by (simp add: load_effect_def split: if_splits)
    then show ?thesis by (simp add: ratios_ok_def initial_state_def)
  next
    case (Inr v)
    with assms(1) have v: "list_all valid_ratio v" by blast
    from Some Inr assms(2) have "st' = initial_state \<or> st' = initial_state\<lparr>images := v\<rparr>"
      by (simp add: load_effect_def split: if_splits)
    with v show ?thesis by (auto simp: ratios_ok_def initial_state_def)
  qed
qed

text \<open>
  Claim C7, as stated, fails: the record type holds the aspect ratio as a plain string
  and the mount effect stores what parsing returns as it is, so a stored record with the
  ratio \<open>2:1\<close> enters the store, and a record edited from it, in either editor, has that
  ratio too.
\<close>

theorem foreign_ratio_enters_store:
  "load_effect foreign_parse (Some ''[{}]'') initial_state
     = Inr (initial_state\<lparr>images := [wide_image]\<rparr>, [])
   \<and> aspectRatio wide_image \<notin> set (map ratio_string ASPECT_RATIOS)
   \<and> map aspectRatio (images (snd (fst (handleAiEdit_part_000 online_env ''g2'' 11 wide_image
          (sample_editor ''add a hat'', initial_state\<lparr>images := [wide_image]\<rparr>)))))
       = [''2:1'', ''2:1'']
   \<and> map aspectRatio (images (snd (fst (handleAiEdit online_env ''u2'' 11 None wide_image
          (sample_editor ''add a hat'', initial_state\<lparr>images := [wide_image]\<rparr>)))))
       = [''2:1'', ''2:1'']"
  using trim_add_a_hat
  by (simp add: load_effect_def foreign_parse_def wide_image_def sample_image_def
      ASPECT_RATIOS_def handleAiEdit_part_000_def handleAiEdit_def sample_editor_def
      online_edit handleImageGenerated_def initial_state_def Let_def)

text \<open>
  Claim C7, amended. A record appended by the generation handler has the aspect ratio
  chosen in the form, one of the five enumerated strings; a record appended by an edit,
  in either editor, has the aspect ratio of the image it was edited from, and the
  handlers offer no override; each handler does append such a record when its prompt is
  not blank and the gateway returns an image. So from a state whose stored records and
  selected image all carry an enumerated ratio, every sequence of generations, edits,
  selections and deletions leads to such a state again. The initial state is one, and so
  is the state after the mount effect when every record read back from storage carries
  an enumerated ratio; the mount effect itself checks nothing.
\<close>

theorem aspect_ratio_from_valid_store:
  "(ratios_ok st \<longrightarrow> ratios_ok (run env acts st))
   \<and> ((\<forall>s v. parse s = Inr v \<longrightarrow> list_all valid_ratio v) \<longrightarrow>
        (\<forall>st' log. load_effect parse saved initial_state = Inr (st', log) \<longrightarrow> ratios_ok st'))
   \<and> (trim (gen_prompt gs) \<noteq> []
        \<and> fst (generateImageWithGemini env (gen_prompt gs) (gen_aspectRatio gs)) = Inr u \<longrightarrow>
        (\<exists>r. images (snd (fst (handleGenerate env uuid now (gs, st)))) = r # images st
            \<and> aspectRatio r = ratio_string (gen_aspectRatio gs)))
   \<and> (images (snd (fst (handleGenerate env uuid now (gs, st)))) \<noteq> images st \<longrightarrow>
        (\<exists>r. images (snd (fst (handleGenerate env uuid now (gs, st)))) = r # images st
            \<and> aspectRatio r \<in> set (map ratio_string ASPECT_RATIOS)))
   \<and> (trim (ed_editPrompt es) \<noteq> []
        \<and> fst (editImageWithGemini env (case canvas of Some c \<Rightarrow> c | None \<Rightarrow> url img)
                 (ed_editPrompt es)) = Inr u \<longrightarrow>
        (\<exists>r. images (snd (fst (handleAiEdit env uuid now canvas img (es, st)))) = r # images st
            \<and> aspectRatio r = aspectRatio img))
   \<and> (images (snd (fst (handleAiEdit env uuid now canvas img (es, st)))) \<noteq> images st \<longrightarrow>
        (\<exists>r. images (snd (fst (handleAiEdit env uuid now canvas img (es, st)))) = r # images st
            \<and> aspectRatio r = aspectRatio img))
   \<and> (trim (ed_editPrompt es) \<noteq> []
        \<and> fst (editImageWithGemini env (url img) (ed_editPrompt es)) = Inr u \<longrightarrow>
        (\<exists>r. images (snd (fst (handleAiEdit_part_000 env uuid now img (es, st)))) = r # images st
            \<and> aspectRatio r = aspectRatio img))
   \<and> (images (snd (fst (handleAiEdit_part_000 env uuid now img (es, st)))) \<noteq> images st \<longrightarrow>
        (\<exists>r. images (snd (fst (handleAiEdit_part_000 env uuid now img (es, st)))) = r # images st
            \<and> aspectRatio r = aspectRatio img))"
proof (intro conjI impI allI)
  assume "ratios_ok st"
  then show "ratios_ok (run env acts st)" by (rule ratios_ok_run)
next
  fix st' log
  assume "\<forall>s v. parse s = Inr v \<longrightarrow> list_all valid_ratio v"
    and "load_effect parse saved initial_state = Inr (st', log)"
  then show "ratios_ok st'" by (rule load_effect_ratios_ok)
next
  assume "trim (gen_prompt gs) \<noteq> []
        \<and> fst (generateImageWithGemini env (gen_prompt gs) (gen_aspectRatio gs)) = Inr u"
  then show "\<exists>r. images (snd (fst (handleGenerate env uuid now (gs, st)))) = r # images st
            \<and> aspectRatio r = ratio_string (gen_aspectRatio gs)"
    using handleGenerate_success by blast
next
  assume "images (snd (fst (handleGenerate env uuid now (gs, st)))) \<noteq> images st"
  with handleGenerate_images [of env uuid now gs st]
  obtain r where r: "images (snd (fst (handleGenerate env uuid now (gs, st)))) = r # images st"
    and "aspectRatio r = ratio_string (gen_aspectRatio gs)" by blast
  then have "aspectRatio r \<in> set (map ratio_string ASPECT_RATIOS)"
    by (simp add: ratio_string_valid del: set_map)
  with r show "\<exists>r. images (snd (fst (handleGenerate env uuid now (gs, st)))) = r # images st
            \<and> aspectRatio r \<in> set (map ratio_string ASPECT_RATIOS)" by blast
next
  assume "trim (ed_editPrompt es) \<noteq> []
        \<and> fst (editImageWithGemini env (case canvas of Some c \<Rightarrow> c | None \<Rightarrow> url img)
                 (ed_editPrompt es)) = Inr u"
  then show "\<exists>r. images (snd (fst (handleAiEdit env uuid now canvas img (es, st)))) = r # images st
            \<and> aspectRatio r = aspectRatio img"
    using handleAiEdit_success by blast
next
  assume "images (snd (fst (handleAiEdit env uuid now canvas img (es, st)))) \<noteq> images st"
  with handleAiEdit_images [of env uuid now canvas img es st]
  show "\<exists>r. images (snd (fst (handleAiEdit env uuid now canvas img (es, st)))) = r # images st
            \<and> aspectRatio r = aspectRatio img" by blast
next
  assume "trim (ed_editPrompt es) \<noteq> []
        \<and> fst (editImageWithGemini env (url img) (ed_editPrompt es)) = Inr u"
  then show "\<exists>r. images (snd (fst (handleAiEdit_part_000 env uuid now img (es, st)))) = r # images st
            \<and> aspectRatio r = aspectRatio img"
    using handleAiEdit_part_000_success by blast
next
  assume "images (snd (fst (handleAiEdit_part_000 env uuid now img (es, st)))) \<noteq> images st"
  with handleAiEdit_part_000_images [of env uuid now img es st]
  show "\<exists>r. images (snd (fst (handleAiEdit_part_000 env uuid now img (es, st)))) = r # images st
            \<and> aspectRatio r = aspectRatio img" by blast
qed

lemma online_edit_generated:
  "editImageWithGemini online_env ''data:image/png;base64,BBBB'' p
     = (Inr ''data:image/png;base64,BBBB'',
        [\<lparr>req_model = ''gemini-2.5-flash-image'',
          req_inlineData = Some (''image/png'', ''BBBB''),
          req_text = p, req_aspectRatio = None\<rparr>])"
  by (simp add: editImageWithGemini_def online_env_def truthy_def or_else_def
      extractImageFromResponse_def sample_response_def match_data_url_def isLineTerminator_def)

lemma sample_run:
  "map aspectRatio (images (run online_env
      [Submit (sample_form ''cat'') ''u1'' 5,
       AiEdit (sample_editor ''add a hat'') (Some ''data:image/png;base64,AAAA'') ''u2'' 6,
       AiEdit_part_000 (sample_editor ''add a hat'') ''g3'' 7]
      initial_state))
   = [''16:9'', ''16:9'', ''16:9'']"
  using trim_add_a_hat
  by (simp add: handleGenerate_def handleAiEdit_def handleAiEdit_part_000_def sample_form_def
      sample_editor_def online_generate online_edit online_edit_generated trim_def
      isWhiteSpace_def handleImageGenerated_def initial_state_def Let_def)

theorem aspect_ratio_from_valid_store_witness:
  "ratios_ok initial_state
   \<and> ratios_ok (run online_env
        [Submit (sample_form ''cat'') ''u1'' 5,
         AiEdit (sample_editor ''add a hat'') (Some ''data:image/png;base64,AAAA'') ''u2'' 6,
         AiEdit_part_000 (sample_editor ''add a hat'') ''g3'' 7]
        initial_state)
   \<and> map aspectRatio (images (run online_env
        [Submit (sample_form ''cat'') ''u1'' 5,
         AiEdit (sample_editor ''add a hat'') (Some ''data:image/png;base64,AAAA'') ''u2'' 6,
         AiEdit_part_000 (sample_editor ''add a hat'') ''g3'' 7]
        initial_state)) = [''16:9'', ''16:9'', ''16:9'']
   \<and> list_all valid_ratio (images sample_store)
   \<and> load_effect stored_parse (Some ''[{}]'') initial_state
       = Inr (initial_state\<lparr>images := images sample_store\<rparr>, [])
   \<and> ratios_ok (initial_state\<lparr>images := images sample_store\<rparr>)
   \<and> trim (gen_prompt (sample_form ''cat'')) \<noteq> []
   \<and> fst (generateImageWithGemini online_env (gen_prompt (sample_form ''cat''))
            (gen_aspectRatio (sample_form ''cat''))) = Inr ''data:image/png;base64,BBBB''
   \<and> map aspectRatio (images (snd (fst (handleGenerate online_env ''u2'' 11
          (sample_form ''cat'', initial_state))))) = [''16:9'']
   \<and> trim (ed_editPrompt (sample_editor ''add a hat'')) \<noteq> []
   \<and> fst (editImageWithGemini online_env (url (sample_image ''1'' 10 None))
            (ed_editPrompt (sample_editor ''add a hat''))) = Inr ''data:image/png;base64,BBBB''
   \<and> map aspectRatio (images (snd (fst (handleAiEdit online_env ''u2'' 11 None
          (sample_image ''1'' 10 None) (sample_editor ''add a hat'', initial_state)))))
       = [''1:1'']
   \<and> map aspectRatio (images (snd (fst (handleAiEdit_part_000 online_env ''u2'' 11
          (sample_image ''1'' 10 None) (sample_editor ''add a hat'', initial_state)))))
       = [''1:1'']"
proof -
  let ?acts = "[Submit (sample_form ''cat'') ''u1'' 5,
         AiEdit (sample_editor ''add a hat'') (Some ''data:image/png;base64,AAAA'') ''u2'' 6,
         AiEdit_part_000 (sample_editor ''add a hat'') ''g3'' 7]"
  let ?img = "sample_image ''1'' 10 None"
  let ?es = "sample_editor ''add a hat''"
  let ?gs = "sample_form ''cat''"
  let ?G = "images (snd (fst (handleGenerate online_env ''u2'' 11 (?gs, initial_state))))"
  let ?E = "images (snd (fst (handleAiEdit online_env ''u2'' 11 None ?img (?es, initial_state))))"
  let ?P = "images (snd (fst (handleAiEdit_part_000 online_env ''u2'' 11 ?img (?es, initial_state))))"
  note t = aspect_ratio_from_valid_store [where st = initial_state and env = online_env
      and acts = ?acts and parse = stored_parse and saved = "Some ''[{}]''" and gs = ?gs
      and u = "''data:image/png;base64,BBBB''" and uuid = "''u2''" and now = 11 and es = ?es
      and canvas = None and img = ?img]
  have i: "ratios_ok initial_state" by (simp add: ratios_ok_def initial_state_def)
  have s: "list_all valid_ratio (images sample_store)"
    by (simp add: sample_store_def sample_image_def valid_ratio_def ASPECT_RATIOS_def)
  then have p: "\<forall>s v. stored_parse s = Inr v \<longrightarrow> list_all valid_ratio v"
    by (simp add: stored_parse_def)
  have l: "load_effect stored_parse (Some ''[{}]'') initial_state
       = Inr (initial_state\<lparr>images := images sample_store\<rparr>, [])"
    by (simp add: load_effect_def stored_parse_def)
  have gt: "trim (gen_prompt ?gs) \<noteq> []"
    by (simp add: sample_form_def trim_def isWhiteSpace_def)
  have g: "fst (generateImageWithGemini online_env (gen_prompt ?gs) (gen_aspectRatio ?gs))
            = Inr ''data:image/png;base64,BBBB''"
    by (simp add: online_generate)
  have et: "trim (ed_editPrompt ?es) \<noteq> []"
    using trim_add_a_hat by (simp add: sample_editor_def)
  have e: "fst (editImageWithGemini online_env (url ?img) (ed_editPrompt ?es))
            = Inr ''data:image/png;base64,BBBB''"
    by (simp add: sample_image_def online_edit)
  have e': "fst (editImageWithGemini online_env (case None of Some c \<Rightarrow> c | None \<Rightarrow> url ?img)
                  (ed_editPrompt ?es)) = Inr ''data:image/png;base64,BBBB''"
    using e by simp
  have c: "images initial_state = []" "aspectRatio ?img = ''1:1''"
    "ratio_string (gen_aspectRatio ?gs) = ''16:9''"
    by (simp_all add: initial_state_def sample_image_def sample_form_def)
  from t i have r: "ratios_ok (run online_env ?acts initial_state)" by blast
  from t p l have lo: "ratios_ok (initial_state\<lparr>images := images sample_store\<rparr>)" by blast
  from t gt g have "\<exists>r. ?G = r # images initial_state
      \<and> aspectRatio r = ratio_string (gen_aspectRatio ?gs)" by blast
  with c have G: "map aspectRatio ?G = [''16:9'']" by auto
  from t et e' have "\<exists>r. ?E = r # images initial_state \<and> aspectRatio r = aspectRatio ?img"
    by blast
  with c have E: "map aspectRatio ?E = [''1:1'']" by auto
  from t et e have "\<exists>r. ?P = r # images initial_state \<and> aspectRatio r = aspectRatio ?img"
    by blast
  with c have P: "map aspectRatio ?P = [''1:1'']" by auto
  from i r sample_run s l lo gt g G et e E P show ?thesis by (intro conjI)
qed

subsection \<open>Uniqueness of ids\<close>

lemma distinct_ids_apply_action:
  assumes d: "distinct (map id' (images st))"
    and f: "case action_id a of None \<Rightarrow> True | Some u \<Rightarrow> u \<notin> set (map id' (images st))"
  shows "distinct (map id' (images (apply_action env a st)))"
proof (cases a)
  case (Submit gs uuid now)
  with f have "uuid \<notin> set (map id' (images st))" by simp
  with d handleGenerate_images [of env uuid now gs st] Submit show ?thesis by auto
next
  case (AiEdit es canvas uuid now)
  with f have u: "uuid \<notin> set (map id' (images st))" by simp
  show ?thesis
  proof (cases "selectedImage st")
    case None
    with AiEdit d show ?thesis by simp
  next
    case (Some img)
    with u d handleAiEdit_images [of env uuid now canvas img es st] AiEdit show ?thesis by auto
  qed
next
  case (AiEdit_part_000 es gid now)
  with f have u: "gid \<notin> set (map id' (images st))" by simp
  show ?thesis
  proof (cases "selectedImage st")
    case None
    with AiEdit_part_000 d show ?thesis by simp
  next
    case (Some img)
    with u d handleAiEdit_part_000_images [of env gid now img es st] AiEdit_part_000
    show ?thesis by auto
  qed
next
  case (Select img)
  with d show ?thesis by (simp add: handleSelectImage_def)
next
  case (Delete i)
  with d show ?thesis by (simp add: images_handleDeleteImage distinct_map_filter)
qed

text \<open>
  Claim C9, as stated, fails: the store compares no ids, so when the id generator hands
  out the same id twice the two generated records both stay in the store.
\<close>

theorem repeated_id_is_stored_twice:
  "map id' (images (run online_env
      [Submit (sample_form ''cat'') ''u1'' 5, Submit (sample_form ''dog'') ''u1'' 6]
      initial_state)) = [''u1'', ''u1'']
   \<and> \<not> distinct (map id' (images (run online_env
      [Submit (sample_form ''cat'') ''u1'' 5, Submit (sample_form ''dog'') ''u1'' 6]
      initial_state)))"
  by (simp add: handleGenerate_def sample_form_def online_generate trim_def isWhiteSpace_def
      handleImageGenerated_def initial_state_def Let_def)

text \<open>
  Claim C9, amended. If the ids in the store are unique and every id handed out by the
  id generator along a sequence of generations, edits, selections and deletions is new
  to the store at the moment it is used, the ids in the store are unique after the
  sequence. Deletion keeps uniqueness by itself.
\<close>

theorem unique_ids_preserved:
  "distinct (map id' (images st)) \<Longrightarrow> fresh_ids env acts st \<Longrightarrow>
   distinct (map id' (images (run env acts st)))"
proof (induction acts arbitrary: st)
  case Nil
  then show ?case by simp
next
  case (Cons a acts)
  from Cons.prems have "distinct (map id' (images (apply_action env a st)))"
    by (intro distinct_ids_apply_action) simp_all
  moreover from Cons.prems have "fresh_ids env acts (apply_action env a st)" by simp
  ultimately show ?case using Cons.IH by simp
qed

theorem unique_ids_preserved_witness:
  "distinct (map id' (images initial_state))
   \<and> fresh_ids online_env
        [Submit (sample_form ''cat'') ''u1'' 5,
         AiEdit (sample_editor ''add a hat'') (Some ''data:image/png;base64,AAAA'') ''u2'' 6]
        initial_state
   \<and> distinct (map id' (images (run online_env
        [Submit (sample_form ''cat'') ''u1'' 5,
         AiEdit (sample_editor ''add a hat'') (Some ''data:image/png;base64,AAAA'') ''u2'' 6]
        initial_state)))"
proof -
  have d: "distinct (map id' (images initial_state))" by (simp add: initial_state_def)
  have f: "fresh_ids online_env
        [Submit (sample_form ''cat'') ''u1'' 5,
         AiEdit (sample_editor ''add a hat'') (Some ''data:image/png;base64,AAAA'') ''u2'' 6]
        initial_state"
    by (simp add: handleGenerate_def sample_form_def online_generate trim_def isWhiteSpace_def
      handleImageGenerated_def initial_state_def Let_def)
  from unique_ids_preserved [OF d f] d f show ?thesis by blast
qed

section \<open>The history lineage\<close>

lemma trace_parents_step:
  "id' cur \<notin> set visited \<Longrightarrow>
   trace_parents S (Some cur) visited lineage =
     trace_parents S
       (case parentId cur of None \<Rightarrow> None
        | Some pid \<Rightarrow> if pid = [] then None else find (\<lambda>img. id' img = pid) S)
       (id' cur # visited) (cur # lineage)"
  by simp

lemma trace_parents_stop:
  "id' cur \<in> set visited \<Longrightarrow> trace_parents S (Some cur) visited lineage = (visited, lineage)"
  by simp

lemma trace_parents_visited:
  "trace_parents S cur visited lineage = (v, l) \<Longrightarrow> visited = map id' lineage \<Longrightarrow>
   v = map id' l"
proof (induction S cur visited lineage rule: trace_parents.induct)
  case (1 allImages visited lineage)
  then show ?case by auto
next
  case (2 allImages cur visited lineage)
  show ?case
  proof (cases "id' cur \<in> set visited")
    case True
    from "2.prems"(1) have "v = visited \<and> l = lineage"
      unfolding trace_parents_stop [OF True] by simp
    with "2.prems"(2) show ?thesis by simp
  next
    case False
    from "2.prems"(1) have "trace_parents allImages
       (case parentId cur of None \<Rightarrow> None
        | Some pid \<Rightarrow> if pid = [] then None else find (\<lambda>img. id' img = pid) allImages)
       (id' cur # visited) (cur # lineage) = (v, l)"
      unfolding trace_parents_step [OF False] .
    moreover from "2.prems"(2) have "id' cur # visited = map id' (cur # lineage)" by simp
    ultimately show ?thesis by (rule "2.IH" [OF False])
  qed
qed

lemma trace_parents_distinct:
  "trace_parents S cur visited lineage = (v, l) \<Longrightarrow> distinct visited \<Longrightarrow> distinct v"
proof (induction S cur visited lineage rule: trace_parents.induct)
  case (1 allImages visited lineage)
  then show ?case by simp
next
  case (2 allImages cur visited lineage)
  show ?case
  proof (cases "id' cur \<in> set visited")
    case True
    from "2.prems"(1) have "v = visited \<and> l = lineage"
      unfolding trace_parents_stop [OF True] by simp
    with "2.prems"(2) show ?thesis by simp
  next
    case False
    from "2.prems"(1) have "trace_parents allImages
       (case parentId cur of None \<Rightarrow> None
        | Some pid \<Rightarrow> if pid = [] then None else find (\<lambda>img. id' img = pid) allImages)
       (id' cur # visited) (cur # lineage) = (v, l)"
      unfolding trace_parents_step [OF False] .
    moreover from "2.prems"(2) False have "distinct (id' cur # visited)" by simp
    ultimately show ?thesis by (rule "2.IH" [OF False])
  qed
qed

lemma trace_parents_keeps:
  "trace_parents S cur visited lineage = (v, l) \<Longrightarrow> set lineage \<subseteq> set l"
proof (induction S cur visited lineage rule: trace_parents.induct)
  case (1 allImages visited lineage)
  then show ?case by simp
next
  case (2 allImages cur visited lineage)
  show ?case
  proof (cases "id' cur \<in> set visited")
    case True
    from "2.prems"(1) have "v = visited \<and> l = lineage"
      unfolding trace_parents_stop [OF True] by simp
    then show ?thesis by simp
  next
    case False
    from "2.prems" have "trace_parents allImages
       (case parentId cur of None \<Rightarrow> None
        | Some pid \<Rightarrow> if pid = [] then None else find (\<lambda>img. id' img = pid) allImages)
       (id' cur # visited) (cur # lineage) = (v, l)"
      unfolding trace_parents_step [OF False] .
    then have "set (cur # lineage) \<subseteq> set l" by (rule "2.IH" [OF False])
    then show ?thesis by simp
  qed
qed

lemma length_filter_filter_le: "length (filter P (filter Q xs)) \<le> length (filter P xs)"
  by (induction xs) auto

lemma trace_parents_start:
  assumes "trace_parents S (Some c) visited lineage = (v, l)" and "id' c \<notin> set visited"
  shows "c \<in> set l"
proof -
  let ?next = "case parentId c of None \<Rightarrow> None
     | Some pid \<Rightarrow> if pid = [] then None else find (\<lambda>img. id' img = pid) S"
  from assms(1) have "trace_parents S ?next (id' c # visited) (c # lineage) = (v, l)"
    unfolding trace_parents_step [OF assms(2)] .
  then have "set (c # lineage) \<subseteq> set l" by (rule trace_parents_keeps)
  then show ?thesis by simp
qed

lemma find_in_set: "find P xs = Some x \<Longrightarrow> x \<in> set xs"
  by (auto simp: find_Some_iff)

lemma trace_parents_members:
  "trace_parents S cur visited lineage = (v, l) \<Longrightarrow>
   set l \<subseteq> set lineage \<union> set S \<union> set_option cur"
proof (induction S cur visited lineage rule: trace_parents.induct)
  case (1 allImages visited lineage)
  then show ?case by auto
next
  case (2 allImages cur visited lineage)
  let ?next = "case parentId cur of None \<Rightarrow> None
     | Some pid \<Rightarrow> if pid = [] then None else find (\<lambda>img. id' img = pid) allImages"
  show ?case
  proof (cases "id' cur \<in> set visited")
    case True
    from "2.prems" have "v = visited \<and> l = lineage"
      unfolding trace_parents_stop [OF True] by simp
    then show ?thesis by auto
  next
    case False
    from "2.prems" have "trace_parents allImages ?next (id' cur # visited) (cur # lineage) = (v, l)"
      unfolding trace_parents_step [OF False] .
    then have "set l \<subseteq> set (cur # lineage) \<union> set allImages \<union> set_option ?next"
      by (rule "2.IH" [OF False])
    moreover have "set_option ?next \<subseteq> set allImages"
      by (auto split: option.splits if_splits dest: find_in_set)
    ultimately show ?thesis by auto
  qed
qed

lemma lineage_count:
  assumes sub: "set l \<subseteq> set T" and d: "distinct (map id' l)"
  shows "length l + length (filter (\<lambda>c. id' c \<notin> set (map id' l)) T) \<le> length T"
proof -
  let ?P = "\<lambda>c. id' c \<in> set (map id' l)"
  have "length l = card (id' ` set l)"
    using d distinct_card [of "map id' l"] by simp
  also have "\<dots> \<le> card (id' ` set (filter ?P T))"
    using sub by (intro card_mono) auto
  also have "\<dots> \<le> card (set (filter ?P T))" by (intro card_image_le) simp
  also have "\<dots> \<le> length (filter ?P T)" by (rule card_length)
  finally have "length l \<le> length (filter ?P T)" .
  moreover have "length (filter ?P T) + length (filter (\<lambda>c. \<not> ?P c) T) = length T"
    by (rule sum_length_filter_compl)
  ultimately show ?thesis by simp
qed

lemma historyLineage_unfold:
  obtains v l where "trace_parents S (Some img) [] [] = (v, l)"
    and "historyLineage img S =
           sort_key timestamp
             (l @ filter (\<lambda>c. id' c \<notin> set v) (filter (\<lambda>i. parentId i = Some (id' img)) S))"
    and "v = map id' l" and "distinct v" and "img \<in> set l" and "set l \<subseteq> insert img (set S)"
proof -
  obtain v l where t: "trace_parents S (Some img) [] [] = (v, l)"
    by (cases "trace_parents S (Some img) [] []")
  have "historyLineage img S =
           sort_key timestamp
             (l @ filter (\<lambda>c. id' c \<notin> set v) (filter (\<lambda>i. parentId i = Some (id' img)) S))"
    unfolding historyLineage_def t by (simp add: Let_def)
  moreover have "v = map id' l" using t by (rule trace_parents_visited) simp
  moreover have "distinct v" using t by (rule trace_parents_distinct) simp
  moreover have "img \<in> set l" using t by (rule trace_parents_start) simp
  moreover have "set l \<subseteq> insert img (set S)" using trace_parents_members [OF t] by auto
  ultimately show thesis using t that by blast
qed

lemma historyLineage_contains: "img \<in> set (historyLineage img S)"
  by (rule historyLineage_unfold [of S img]) simp

lemma historyLineage_length_in_store:
  assumes "img \<in> set S"
  shows "length (historyLineage img S) \<le> length S"
proof (rule historyLineage_unfold [of S img])
  fix v l
  assume h: "historyLineage img S =
           sort_key timestamp
             (l @ filter (\<lambda>c. id' c \<notin> set v) (filter (\<lambda>i. parentId i = Some (id' img)) S))"
    and v: "v = map id' l" and d: "distinct v" and sub: "set l \<subseteq> insert img (set S)"
  from sub assms have "set l \<subseteq> set S" by auto
  with d v have "length l + length (filter (\<lambda>c. id' c \<notin> set (map id' l)) S) \<le> length S"
    by (intro lineage_count) simp_all
  moreover have "length (filter (\<lambda>c. id' c \<notin> set v) (filter (\<lambda>i. parentId i = Some (id' img)) S))
                 \<le> length (filter (\<lambda>c. id' c \<notin> set v) S)"
    by (rule length_filter_filter_le)
  ultimately show ?thesis using h v by simp
qed

lemma historyLineage_length:
  "1 \<le> length (historyLineage img S) \<and> length (historyLineage img S) \<le> Suc (length S)"
proof (rule historyLineage_unfold [of S img])
  fix v l
  assume h: "historyLineage img S =
           sort_key timestamp
             (l @ filter (\<lambda>c. id' c \<notin> set v) (filter (\<lambda>i. parentId i = Some (id' img)) S))"
    and v: "v = map id' l" and d: "distinct v" and sub: "set l \<subseteq> insert img (set S)"
    and m: "img \<in> set l"
  from m have "l \<noteq> []" by auto
  then have lo: "1 \<le> length (historyLineage img S)" using h by (cases l) simp_all
  from sub have "set l \<subseteq> set (img # S)" by auto
  with d v have "length l + length (filter (\<lambda>c. id' c \<notin> set (map id' l)) (img # S))
                 \<le> length (img # S)"
    by (intro lineage_count) simp_all
  moreover from m v have "id' img \<in> set v" by auto
  ultimately have "length l + length (filter (\<lambda>c. id' c \<notin> set v) S) \<le> Suc (length S)"
    using v by simp
  moreover have "length (filter (\<lambda>c. id' c \<notin> set v) (filter (\<lambda>i. parentId i = Some (id' img)) S))
                 \<le> length (filter (\<lambda>c. id' c \<notin> set v) S)"
    by (rule length_filter_filter_le)
  ultimately have "length (historyLineage img S) \<le> Suc (length S)" using h by simp
  with lo show ?thesis by simp
qed

lemma historyLineage_distinct:
  assumes "distinct (map id' S)"
  shows "distinct (map id' (historyLineage img S))"
proof (rule historyLineage_unfold [of S img])
  fix v l
  assume h: "historyLineage img S =
           sort_key timestamp
             (l @ filter (\<lambda>c. id' c \<notin> set v) (filter (\<lambda>i. parentId i = Some (id' img)) S))"
    and v: "v = map id' l" and d: "distinct v"
  let ?ch = "filter (\<lambda>c. id' c \<notin> set v) (filter (\<lambda>i. parentId i = Some (id' img)) S)"
  have "distinct (map id' ?ch)" using assms by (simp add: distinct_map_filter)
  moreover have "set (map id' l) \<inter> set (map id' ?ch) = {}"
    using v by (fastforce simp: image_iff)
  ultimately have "distinct (map id' (l @ ?ch))" using d v by simp
  moreover have "mset (map id' (historyLineage img S)) = mset (map id' (l @ ?ch))"
    using h by simp
  ultimately show ?thesis using mset_eq_imp_distinct_iff by blast
qed

text \<open>
  Claim C2, as stated, fails in two places. A record that is not in the store but whose
  \<open>parentId\<close> resolves there gets a lineage of two records, over a store of one. And
  over a store in which two children of the record share an id, the lineage holds that
  id twice.
\<close>

theorem lineage_detached_and_duplicates:
  "sample_image ''2'' 20 (Some ''1'') \<notin> set [sample_image ''1'' 10 None]
   \<and> length (historyLineage (sample_image ''2'' 20 (Some ''1'')) [sample_image ''1'' 10 None]) = 2
   \<and> \<not> distinct (map id' (historyLineage (sample_image ''1'' 10 None)
          [sample_image ''2'' 20 (Some ''1''), sample_image ''2'' 30 (Some ''1'')]))"
  by (simp add: historyLineage_def sample_image_def)

text \<open>
  Claim C2, amended. For every record and every store the lineage contains the record
  itself and has at least one and at most one more element than the store; when the
  record is in the store the lineage is no longer than the store; when the ids of the
  store are unique the lineage holds no id twice.
\<close>

theorem lineage_contract:
  "img \<in> set (historyLineage img S)
   \<and> 1 \<le> length (historyLineage img S)
   \<and> length (historyLineage img S) \<le> Suc (length S)
   \<and> (img \<in> set S \<longrightarrow> length (historyLineage img S) \<le> length S)
   \<and> (distinct (map id' S) \<longrightarrow> distinct (map id' (historyLineage img S)))"
  using historyLineage_contains [of img S] historyLineage_length [of img S]
    historyLineage_length_in_store [of img S] historyLineage_distinct [of S img]
  by blast

theorem lineage_contract_witness:
  "sample_image ''2'' 20 (Some ''1'') \<in> set (images sample_store)
   \<and> distinct (map id' (images sample_store))
   \<and> length (historyLineage (sample_image ''2'' 20 (Some ''1'')) (images sample_store))
       \<le> length (images sample_store)
   \<and> distinct (map id' (historyLineage (sample_image ''2'' 20 (Some ''1'')) (images sample_store)))
   \<and> map id' (historyLineage (sample_image ''2'' 20 (Some ''1'')) (images sample_store))
       = [''1'', ''2'', ''3'']"
proof -
  have m: "sample_image ''2'' 20 (Some ''1'') \<in> set (images sample_store)"
    by (simp add: sample_store_def)
  have d: "distinct (map id' (images sample_store))"
    by (simp add: sample_store_def sample_image_def)
  have e: "map id' (historyLineage (sample_image ''2'' 20 (Some ''1'')) (images sample_store))
       = [''1'', ''2'', ''3'']"
    by (simp add: historyLineage_def sample_store_def sample_image_def)
  from lineage_contract [of "sample_image ''2'' 20 (Some ''1'')" "images sample_store"] m d
  have "length (historyLineage (sample_image ''2'' 20 (Some ''1'')) (images sample_store))
       \<le> length (images sample_store)"
    and "distinct (map id' (historyLineage (sample_image ''2'' 20 (Some ''1'')) (images sample_store)))"
    by blast+
  with m d e show ?thesis by blast
qed

end
